theory Spec2Isabelle
  imports Complex_Main
begin

section \<open>Data model (WorldBuilder.ts, BiomeManager.ts)\<close>

text \<open>
  Luau numbers are modelled as \<open>int\<close> where the code uses them as grid coordinates,
  radii and counters, and as \<open>real\<close> where they are noise heights, thresholds and
  seeds. A height that is not a number is outside the model.
\<close>

datatype AxialCoordinates = Axial (X: int) (Z: int)

datatype TileType = TileType_Land | TileType_Water | TileType_Town

datatype Biome =
  Biome_Water | Biome_Grassland | Biome_Coastline | Biome_MountainSnow | Biome_Mountain

record TileDefinition =
  Position :: AxialCoordinates
  Type :: TileType
  Biome :: Biome

record DebugConfig =
  ShowCoords :: "bool option"
  VisualizeBiomes :: "bool option"

text \<open>The optional fields of \<open>MapConfig\<close> are \<open>None\<close> when the caller left them out.\<close>

record MapConfig =
  Radius :: int
  DepthScale :: real
  TotalTowns :: int
  GenerateBiomes :: "bool option"
  WaterLevel :: "real option"
  Seed :: "real option"
  Debug :: "DebugConfig option"

text \<open>\<open>TileMap\<close> is \<open>Map<number, Map<number, TileDefinition>>\<close>: first key X, second key Z.\<close>

type_synonym TileMap = "int \<rightharpoonup> (int \<rightharpoonup> TileDefinition)"

record MapDefinition =
  Config :: MapConfig
  Tiles :: TileMap

definition tileAt :: "TileMap \<Rightarrow> AxialCoordinates \<Rightarrow> TileDefinition option" where
  "tileAt tiles c = (case tiles (X c) of None \<Rightarrow> None | Some zMap \<Rightarrow> zMap (Z c))"

section \<open>HexUtil collaborators\<close>

text \<open>
  Modelled from the spec: \<open>cubeDistance\<close> of HexUtil is not among the sources. It is the
  hex-grid distance of a coordinate from the origin, the number of hex steps, with the
  implied cube axis \<open>Y = - X - Z\<close>.
\<close>

definition cubeDistance :: "AxialCoordinates \<Rightarrow> int" where
  "cubeDistance c = max (max \<bar>X c\<bar> \<bar>Z c\<bar>) \<bar>- X c - Z c\<bar>"

text \<open>
  Modelled from the spec: \<open>getNearbyCoordinates\<close> of HexUtil is not among the sources.
  It lists the coordinates within cube distance \<open>radius\<close> of \<open>axial\<close>, by the hex-ring
  double loop, and leaves out \<open>axial\<close> itself when \<open>radius > 0\<close>; at radius 1 these are
  the six coordinates at distance exactly 1. At radius 0 the list is \<open>axial\<close> alone, and
  at a negative radius it is empty.
\<close>

definition getNearbyCoordinates :: "AxialCoordinates \<Rightarrow> int \<Rightarrow> AxialCoordinates list" where
  "getNearbyCoordinates axial radius =
     filter (\<lambda>c. \<not> (0 < radius \<and> c = axial))
       (concat (map (\<lambda>dx. map (\<lambda>dy. Axial (X axial + dx) (Z axial + (- dx - dy)))
                      [max (- radius) (- dx - radius) .. min radius (- dx + radius)])
                [- radius .. radius]))"

text \<open>
  The remaining collaborators are parameters of the model. \<open>calculateDecayingNoise\<close> is
  the decaying-noise height of a coordinate under a seed and a map radius.
  \<open>getRandomMapTiles\<close> draws tiles of a type from the grid with a \<open>Random\<close> object, whose
  state \<open>'r\<close> it returns advanced; the tile objects it returns are the grid's own, named
  here by their coordinate. \<open>newRandom\<close> is \<open>new Random(seed)\<close> and \<open>mathRandom\<close> the
  value \<open>math.random()\<close> gives when the seed is drawn.
\<close>

record 'r HexUtil =
  calculateDecayingNoise :: "AxialCoordinates \<Rightarrow> real \<Rightarrow> int \<Rightarrow> real"
  getRandomMapTiles :: "TileMap \<Rightarrow> int \<Rightarrow> TileType \<Rightarrow> 'r \<Rightarrow> AxialCoordinates list \<times> 'r"
  newRandom :: "real \<Rightarrow> 'r"
  mathRandom :: real

section \<open>BiomeManager\<close>

text \<open>
  The manager holds the resolved configuration; \<open>seed\<close>, \<open>radius\<close> and \<open>waterLevel\<close> are
  the fields of it that the methods read. Its calls \<open>calculateDecayingNoise(axial, config)\<close>
  are the noise of the builder at the configuration's seed and radius. The biome cache
  and the \<open>Random\<close> object are read by the disabled region-growing code only.
\<close>

definition tileHasWater ::
  "(AxialCoordinates \<Rightarrow> real \<Rightarrow> int \<Rightarrow> real) \<Rightarrow> real \<Rightarrow> int \<Rightarrow> real \<Rightarrow> AxialCoordinates \<Rightarrow> bool" where
  "tileHasWater noise seed radius waterLevel axial =
     (let height = noise axial seed radius in
      if height \<le> waterLevel then True else False)"

fun anyHasWater ::
  "(AxialCoordinates \<Rightarrow> real \<Rightarrow> int \<Rightarrow> real) \<Rightarrow> real \<Rightarrow> int \<Rightarrow> real \<Rightarrow> AxialCoordinates list \<Rightarrow> bool" where
  "anyHasWater noise seed radius waterLevel [] = False"
| "anyHasWater noise seed radius waterLevel (neighbor # rest) =
     (if tileHasWater noise seed radius waterLevel neighbor then True
      else anyHasWater noise seed radius waterLevel rest)"

definition tileIsCoastline ::
  "(AxialCoordinates \<Rightarrow> real \<Rightarrow> int \<Rightarrow> real) \<Rightarrow> real \<Rightarrow> int \<Rightarrow> real \<Rightarrow> AxialCoordinates \<Rightarrow> bool" where
  "tileIsCoastline noise seed radius waterLevel axial =
     anyHasWater noise seed radius waterLevel (getNearbyCoordinates axial 1)"

definition getTileBiome ::
  "(AxialCoordinates \<Rightarrow> real \<Rightarrow> int \<Rightarrow> real) \<Rightarrow> real \<Rightarrow> int \<Rightarrow> real \<Rightarrow> AxialCoordinates \<Rightarrow> Biome" where
  "getTileBiome noise seed radius waterLevel axial =
     (if tileHasWater noise seed radius waterLevel axial then Biome_Water
      else if tileIsCoastline noise seed radius waterLevel axial then Biome_Coastline
      else (let height = noise axial seed radius in
            if height > 0.2 then Biome_MountainSnow
            else if height > 0 then Biome_Mountain
            else Biome_Grassland))"

text \<open>The list \<open>getNearbyCoordinates\<close> gives at radius 1, written out.\<close>

definition ring1 :: "AxialCoordinates \<Rightarrow> AxialCoordinates list" where
  "ring1 c = [Axial (X c - 1) (Z c + 1), Axial (X c - 1) (Z c), Axial (X c) (Z c + 1),
              Axial (X c) (Z c - 1), Axial (X c + 1) (Z c), Axial (X c + 1) (Z c - 1)]"

section \<open>BuildMapDefinition: terrain generation\<close>

text \<open>
  The body of the two nested loops for one pair \<open>(cubeX, cubeZ)\<close>: the height is sampled
  once for the tile type; the biome comes from the manager only under \<open>GenerateBiomes\<close>.
  The assignment \<open>cubeZ = 0\<close> under \<open>cubeZ === 0\<close> replaces a negative zero, which \<open>int\<close>
  does not have.
\<close>

definition initialTile :: "'r HexUtil \<Rightarrow> MapConfig \<Rightarrow> real \<Rightarrow> real \<Rightarrow> int \<Rightarrow> int \<Rightarrow> TileDefinition" where
  "initialTile util config seed waterLevel cubeX cubeZ =
     (let axial = Axial cubeX cubeZ;
          height = calculateDecayingNoise util axial seed (Radius config);
          tileType = (if height \<le> waterLevel then TileType_Water else TileType_Land);
          biome = (if GenerateBiomes config = Some True
                   then getTileBiome (calculateDecayingNoise util) seed (Radius config) waterLevel axial
                   else Biome_Grassland)
      in \<lparr>Position = axial, Type = tileType, Biome = biome\<rparr>)"

text \<open>\<open>tiles.get(cubeX)\<close>, a fresh inner map when there is none, then \<open>zMap.set(cubeZ, tile)\<close>.\<close>

definition setTile :: "TileMap \<Rightarrow> int \<Rightarrow> int \<Rightarrow> TileDefinition \<Rightarrow> TileMap" where
  "setTile tiles cubeX cubeZ tile =
     (let zMap = (case tiles cubeX of None \<Rightarrow> Map.empty | Some m \<Rightarrow> m)
      in tiles(cubeX \<mapsto> zMap(cubeZ \<mapsto> tile)))"

definition createRow :: "'r HexUtil \<Rightarrow> MapConfig \<Rightarrow> real \<Rightarrow> real \<Rightarrow> int \<Rightarrow> TileMap \<Rightarrow> TileMap" where
  "createRow util config seed waterLevel cubeX tiles =
     fold (\<lambda>cubeY acc. setTile acc cubeX (- cubeX - cubeY)
                          (initialTile util config seed waterLevel cubeX (- cubeX - cubeY)))
          [max (- Radius config) (- cubeX - Radius config) ..
           min (Radius config) (- cubeX + Radius config)]
          tiles"

definition createInitialMap :: "'r HexUtil \<Rightarrow> MapConfig \<Rightarrow> real \<Rightarrow> real \<Rightarrow> TileMap" where
  "createInitialMap util config seed waterLevel =
     fold (createRow util config seed waterLevel) [- Radius config .. Radius config] Map.empty"

section \<open>BuildMapDefinition: flood fill and removal of unvisited land\<close>

text \<open>
  \<open>visited\<close> is keyed by \<open>axialKey\<close>, the string of a coordinate; the model keys it by the
  coordinate itself. \<open>toVisit\<close> only grows, and \<open>visitIdx\<close> walks along it.
\<close>

record FloodState =
  visited :: "AxialCoordinates \<rightharpoonup> bool"
  toVisit :: "AxialCoordinates list"
  visitIdx :: nat

fun visitNeighbors ::
  "'r HexUtil \<Rightarrow> MapConfig \<Rightarrow> real \<Rightarrow> real \<Rightarrow> AxialCoordinates list \<Rightarrow> FloodState \<Rightarrow> FloodState" where
  "visitNeighbors util config seed waterLevel [] st = st"
| "visitNeighbors util config seed waterLevel (neighbor # rest) st =
     (if visited st neighbor = None then
        (let height = calculateDecayingNoise util neighbor seed (Radius config) in
         if height \<le> waterLevel
         then visitNeighbors util config seed waterLevel rest
                (st\<lparr>visited := (visited st)(neighbor \<mapsto> False)\<rparr>)
         else visitNeighbors util config seed waterLevel rest
                (st\<lparr>visited := (visited st)(neighbor \<mapsto> True),
                    toVisit := toVisit st @ [neighbor]\<rparr>))
      else visitNeighbors util config seed waterLevel rest st)"

definition floodStep :: "'r HexUtil \<Rightarrow> MapConfig \<Rightarrow> real \<Rightarrow> real \<Rightarrow> FloodState \<Rightarrow> FloodState" where
  "floodStep util config seed waterLevel st =
     (visitNeighbors util config seed waterLevel
        (getNearbyCoordinates (toVisit st ! visitIdx st) 1) st)
     \<lparr>visitIdx := Suc (visitIdx st)\<rparr>"

text \<open>
  The \<open>for (;;)\<close> loop: it leaves when \<open>toVisit[visitIdx]\<close> is undefined, that is when the
  index has reached the end of the array. \<open>None\<close> is a loop that never leaves.
\<close>

partial_function (option) floodLoop ::
  "'r HexUtil \<Rightarrow> MapConfig \<Rightarrow> real \<Rightarrow> real \<Rightarrow> FloodState \<Rightarrow> FloodState option" where
  "floodLoop util config seed waterLevel st =
     (if visitIdx st < length (toVisit st)
      then floodLoop util config seed waterLevel (floodStep util config seed waterLevel st)
      else Some st)"

declare floodLoop.simps [code]

definition floodStart :: FloodState where
  "floodStart = \<lparr>visited = [Axial 0 0 \<mapsto> True], toVisit = [Axial 0 0], visitIdx = 0\<rparr>"

definition floodFill ::
  "'r HexUtil \<Rightarrow> MapConfig \<Rightarrow> real \<Rightarrow> real \<Rightarrow> (AxialCoordinates \<rightharpoonup> bool) option" where
  "floodFill util config seed waterLevel =
     map_option visited (floodLoop util config seed waterLevel floodStart)"

text \<open>
  The removal loops visit every tile of the grid once and rewrite the tile they visit
  only, so the grid after them is the grid with \<open>removeIfUnvisited\<close> applied to each tile.
\<close>

definition removeIfUnvisited :: "(AxialCoordinates \<rightharpoonup> bool) \<Rightarrow> TileDefinition \<Rightarrow> TileDefinition" where
  "removeIfUnvisited vis tile =
     (if Type tile = TileType_Land then
        (case vis (Position tile) of
           Some True \<Rightarrow> tile
         | _ \<Rightarrow> tile\<lparr>Type := TileType_Water, Biome := Biome_Water\<rparr>)
      else tile)"

definition removeUnvisited :: "(AxialCoordinates \<rightharpoonup> bool) \<Rightarrow> TileMap \<Rightarrow> TileMap" where
  "removeUnvisited vis tiles =
     (\<lambda>x. map_option (\<lambda>zMap z. map_option (removeIfUnvisited vis) (zMap z)) (tiles x))"

section \<open>BuildMapDefinition: town placement\<close>

datatype Output = Print_Seed real | Print_Towns int int | Warn_Failed int int

text \<open>The scan of \<open>neighborCoords\<close>: coordinates without a tile are skipped, a Town ends it.\<close>

fun canBeTown :: "TileMap \<Rightarrow> AxialCoordinates list \<Rightarrow> bool" where
  "canBeTown tiles [] = True"
| "canBeTown tiles (coord # rest) =
     (case tiles (X coord) of
        None \<Rightarrow> canBeTown tiles rest
      | Some zMap \<Rightarrow>
          (case zMap (Z coord) of
             None \<Rightarrow> canBeTown tiles rest
           | Some neighborTile \<Rightarrow>
               if Type neighborTile = TileType_Town then False else canBeTown tiles rest))"

text \<open>\<open>tile.Type = TileType.Town\<close> on the grid's tile object at a coordinate.\<close>

definition setTown :: "TileMap \<Rightarrow> AxialCoordinates \<Rightarrow> TileMap" where
  "setTown tiles c =
     (case tiles (X c) of
        None \<Rightarrow> tiles
      | Some zMap \<Rightarrow>
          (case zMap (Z c) of
             None \<Rightarrow> tiles
           | Some tile \<Rightarrow> tiles(X c \<mapsto> zMap(Z c \<mapsto> tile\<lparr>Type := TileType_Town\<rparr>))))"

record SeedScan =
  scanTiles :: TileMap
  scanGenerated :: int
  newTownThisIteration :: bool

fun placeSeeds :: "int \<Rightarrow> AxialCoordinates list \<Rightarrow> SeedScan \<Rightarrow> SeedScan" where
  "placeSeeds exclusion [] sc = sc"
| "placeSeeds exclusion (tile # rest) sc =
     (if canBeTown (scanTiles sc) (getNearbyCoordinates tile exclusion)
      then placeSeeds exclusion rest
             \<lparr>scanTiles = setTown (scanTiles sc) tile,
              scanGenerated = scanGenerated sc + 1,
              newTownThisIteration = True\<rparr>
      else placeSeeds exclusion rest sc)"

record 'r Placement =
  placedTiles :: TileMap
  rand :: 'r
  townsGenerated :: int
  townExclusionZoneRadius :: int
  townExclusionZoneRetries :: int
  logged :: "Output list"

text \<open>One pass of the body of the town loop, up to the test for radius \<open>-1\<close>.\<close>

definition placeRound :: "'r HexUtil \<Rightarrow> MapConfig \<Rightarrow> 'r Placement \<Rightarrow> 'r Placement" where
  "placeRound util config st =
     (let drawn = getRandomMapTiles util (placedTiles st)
                    (TotalTowns config - townsGenerated st) TileType_Land (rand st);
          sc = placeSeeds (townExclusionZoneRadius st) (fst drawn)
                 \<lparr>scanTiles = placedTiles st, scanGenerated = townsGenerated st,
                  newTownThisIteration = False\<rparr>;
          retries = (if \<not> newTownThisIteration sc then townExclusionZoneRetries st + 1
                     else townExclusionZoneRetries st)
      in st\<lparr>placedTiles := scanTiles sc,
            rand := snd drawn,
            townsGenerated := scanGenerated sc,
            townExclusionZoneRadius :=
              (if retries = 3 then townExclusionZoneRadius st - 1 else townExclusionZoneRadius st),
            townExclusionZoneRetries := (if retries = 3 then 0 else retries)\<rparr>)"

definition warnFailed :: "MapConfig \<Rightarrow> 'r Placement \<Rightarrow> 'r Placement" where
  "warnFailed config st = st\<lparr>logged := logged st @ [Warn_Failed (TotalTowns config) (townsGenerated st)]\<rparr>"

definition printTowns :: "MapConfig \<Rightarrow> 'r Placement \<Rightarrow> 'r Placement" where
  "printTowns config st = st\<lparr>logged := logged st @ [Print_Towns (townsGenerated st) (TotalTowns config)]\<rparr>"

text \<open>
  The town loop. It leaves when enough towns are generated, or by \<open>break\<close> after the
  warning; \<open>RunService.Heartbeat.Wait()\<close> at the end of a pass only yields to the host.
  \<open>None\<close> is a loop that never leaves.
\<close>

partial_function (option) placeTowns ::
  "'r HexUtil \<Rightarrow> MapConfig \<Rightarrow> 'r Placement \<Rightarrow> 'r Placement option" where
  "placeTowns util config st =
     (if townsGenerated st < TotalTowns config then
        (if townExclusionZoneRadius (placeRound util config st) = - 1
         then Some (warnFailed config (placeRound util config st))
         else placeTowns util config (printTowns config (placeRound util config st)))
      else Some st)"

declare placeTowns.simps [code]

section \<open>BuildMapDefinition\<close>

text \<open>
  \<open>config\<close> is the caller's object: the function writes the defaults of \<open>Seed\<close> and
  \<open>WaterLevel\<close> into it and returns it as \<open>Config\<close>. \<open>configAfter\<close> is that object when
  the function returns, \<open>returned\<close> the map definition, \<open>printed\<close> what was printed and
  warned. The function throws nowhere; \<open>None\<close> is a call that never returns.
\<close>

record BuildResult =
  configAfter :: MapConfig
  returned :: MapDefinition
  printed :: "Output list"

definition resolveConfig :: "'r HexUtil \<Rightarrow> MapConfig \<Rightarrow> MapConfig" where
  "resolveConfig util config =
     (let config1 = (if Seed config = None then config\<lparr>Seed := Some (mathRandom util)\<rparr> else config)
      in if WaterLevel config1 = None then config1\<lparr>WaterLevel := Some (- 0.4)\<rparr> else config1)"

text \<open>
  The numbers \<open>config.Seed\<close> and \<open>config.WaterLevel\<close> hold once the defaults are written;
  every later read of the two fields gives them.
\<close>

definition seedOf :: "'r HexUtil \<Rightarrow> MapConfig \<Rightarrow> real" where
  "seedOf util config = (case Seed config of None \<Rightarrow> mathRandom util | Some s \<Rightarrow> s)"

definition waterLevelOf :: "MapConfig \<Rightarrow> real" where
  "waterLevelOf config = (case WaterLevel config of None \<Rightarrow> - 0.4 | Some w \<Rightarrow> w)"

definition filteredTiles :: "'r HexUtil \<Rightarrow> MapConfig \<Rightarrow> TileMap option" where
  "filteredTiles util config =
     map_option (\<lambda>vis. removeUnvisited vis
                   (createInitialMap util config (seedOf util config) (waterLevelOf config)))
       (floodFill util config (seedOf util config) (waterLevelOf config))"

definition placementStart :: "'r HexUtil \<Rightarrow> MapConfig \<Rightarrow> TileMap \<Rightarrow> 'r Placement" where
  "placementStart util config tiles =
     \<lparr>placedTiles = tiles,
      rand = newRandom util (seedOf util config),
      townsGenerated = 0,
      townExclusionZoneRadius = min (Radius config) 10,
      townExclusionZoneRetries = 0,
      logged = [Print_Seed (seedOf util config)]\<rparr>"

definition BuildMapDefinition :: "'r HexUtil \<Rightarrow> MapConfig \<Rightarrow> BuildResult option" where
  "BuildMapDefinition util config =
     (case filteredTiles util config of
        None \<Rightarrow> None
      | Some tiles \<Rightarrow>
          (case placeTowns util config (placementStart util config tiles) of
             None \<Rightarrow> None
           | Some st \<Rightarrow>
               Some \<lparr>configAfter = resolveConfig util config,
                     returned = \<lparr>Config = resolveConfig util config, Tiles = placedTiles st\<rparr>,
                     printed = logged st\<rparr>))"

section \<open>Auxiliary notions for the statements\<close>

text \<open>The bounds of the inner loop of the grid builder, read at the key \<open>Z\<close>.\<close>

definition inRow :: "int \<Rightarrow> int \<Rightarrow> int \<Rightarrow> bool" where
  "inRow r x z \<longleftrightarrow> max (- r) (- x - r) \<le> - x - z \<and> - x - z \<le> min r (- x + r)"

definition hexBall :: "int \<Rightarrow> AxialCoordinates set" where
  "hexBall r = {c. cubeDistance c \<le> r}"

text \<open>The coordinates at which a grid holds a tile.\<close>

definition tileCoords :: "TileMap \<Rightarrow> AxialCoordinates set" where
  "tileCoords tiles = {c. tileAt tiles c \<noteq> None}"

text \<open>
  Collaborators for the examples: a noise that is \<open>there\<close> at the listed coordinates
  and \<open>elsewhere\<close> at all others, a sampler that offers, of the coordinates \<open>offered\<close>,
  those that hold a tile of the requested type, and a \<open>Random\<close> object without state.
\<close>

definition exampleUtil :: "AxialCoordinates list \<Rightarrow> real \<Rightarrow> real \<Rightarrow> AxialCoordinates list \<Rightarrow> unit HexUtil" where
  "exampleUtil listed there elsewhere offered =
     \<lparr>calculateDecayingNoise = (\<lambda>c s r. if c \<in> set listed then there else elsewhere),
      getRandomMapTiles = (\<lambda>tiles n ty r.
         (filter (\<lambda>c. case tileAt tiles c of None \<Rightarrow> False | Some t \<Rightarrow> Type t = ty)
            (remdups offered), r)),
      newRandom = (\<lambda>s. ()),
      mathRandom = 0.5\<rparr>"

definition exampleConfig :: "int \<Rightarrow> int \<Rightarrow> bool option \<Rightarrow> MapConfig" where
  "exampleConfig r towns biomes =
     \<lparr>Radius = r, DepthScale = 1, TotalTowns = towns, GenerateBiomes = biomes,
      WaterLevel = None, Seed = None, Debug = None\<rparr>"

text \<open>The height the builder and the flood fill sample at a coordinate.\<close>

definition heightAt :: "'r HexUtil \<Rightarrow> MapConfig \<Rightarrow> real \<Rightarrow> AxialCoordinates \<Rightarrow> real" where
  "heightAt util config seed c = calculateDecayingNoise util c seed (Radius config)"

text \<open>
  A coordinate is reachable when a path of ring-1 steps leads to it from the origin and
  every coordinate the path steps onto has a height above the water level. The origin
  itself is not tested, and the path is not confined to the map radius.
\<close>

inductive reachable :: "(AxialCoordinates \<Rightarrow> real) \<Rightarrow> real \<Rightarrow> AxialCoordinates \<Rightarrow> bool"
  for h :: "AxialCoordinates \<Rightarrow> real" and waterLevel :: real where
  reachable_origin: "reachable h waterLevel (Axial 0 0)"
| reachable_step: "reachable h waterLevel c \<Longrightarrow> n \<in> set (getNearbyCoordinates c 1) \<Longrightarrow>
                   h n > waterLevel \<Longrightarrow> reachable h waterLevel n"

text \<open>What holds of the flood fill's state between two visits of a neighbour.\<close>

definition markInv :: "(AxialCoordinates \<Rightarrow> real) \<Rightarrow> real \<Rightarrow> FloodState \<Rightarrow> bool" where
  "markInv h waterLevel s \<longleftrightarrow>
     visited s (Axial 0 0) = Some True
     \<and> (\<forall>c b. c \<noteq> Axial 0 0 \<longrightarrow> visited s c = Some b \<longrightarrow> b = (h c > waterLevel))
     \<and> (\<forall>c. visited s c = Some True \<longrightarrow> reachable h waterLevel c)
     \<and> set (toVisit s) = {c. visited s c = Some True}
     \<and> distinct (toVisit s)"

text \<open>What holds of it between two passes of the loop.\<close>

definition floodInv :: "(AxialCoordinates \<Rightarrow> real) \<Rightarrow> real \<Rightarrow> FloodState \<Rightarrow> bool" where
  "floodInv h waterLevel s \<longleftrightarrow>
     markInv h waterLevel s
     \<and> visitIdx s \<le> length (toVisit s)
     \<and> (\<forall>i < visitIdx s. \<forall>n \<in> set (getNearbyCoordinates (toVisit s ! i) 1). visited s n \<noteq> None)"

text \<open>The cube distance between two coordinates.\<close>

definition cubeDistanceBetween :: "AxialCoordinates \<Rightarrow> AxialCoordinates \<Rightarrow> int" where
  "cubeDistanceBetween a b = cubeDistance (Axial (X b - X a) (Z b - Z a))"

text \<open>The coordinates at which a grid holds a tile of a given type.\<close>

definition typedCoords :: "TileType \<Rightarrow> TileMap \<Rightarrow> AxialCoordinates set" where
  "typedCoords ty tiles = {c. \<exists>t. tileAt tiles c = Some t \<and> Type t = ty}"

text \<open>No two Towns of a grid lie within exclusion radius \<open>r\<close> of each other.\<close>

definition spaced :: "int \<Rightarrow> TileMap \<Rightarrow> bool" where
  "spaced r tiles \<longleftrightarrow>
     (\<forall>a b. a \<in> typedCoords TileType_Town tiles \<longrightarrow> b \<in> typedCoords TileType_Town tiles \<longrightarrow>
            a \<noteq> b \<longrightarrow> cubeDistanceBetween a b > r)"

text \<open>
  Modelled from the spec: the contract of \<open>getRandomMapTiles\<close> of HexUtil, which is not
  among the sources. The tiles it returns are distinct tiles of the grid and have the
  requested type.
\<close>

definition samplerContract :: "'r HexUtil \<Rightarrow> bool" where
  "samplerContract util \<longleftrightarrow>
     (\<forall>tiles n ty r.
        distinct (fst (getRandomMapTiles util tiles n ty r))
        \<and> set (fst (getRandomMapTiles util tiles n ty r)) \<subseteq> typedCoords ty tiles)"

text \<open>A grid is another grid with some of its Land tiles turned into Towns.\<close>

definition promoted :: "TileMap \<Rightarrow> TileMap \<Rightarrow> bool" where
  "promoted tiles0 tiles \<longleftrightarrow>
     (\<forall>c. tileAt tiles c = tileAt tiles0 c
        \<or> (\<exists>t. tileAt tiles0 c = Some t \<and> Type t = TileType_Land
                \<and> tileAt tiles c = Some (t\<lparr>Type := TileType_Town\<rparr>)))"

text \<open>What a caller observes of a run at one coordinate, \<open>None\<close> when the run does not return.\<close>

definition floodMark :: "'r HexUtil \<Rightarrow> MapConfig \<Rightarrow> AxialCoordinates \<Rightarrow> bool option option" where
  "floodMark util config c =
     map_option (\<lambda>vis. vis c) (floodFill util config (seedOf util config) (waterLevelOf config))"

definition filteredTileAt ::
  "'r HexUtil \<Rightarrow> MapConfig \<Rightarrow> AxialCoordinates \<Rightarrow> TileDefinition option option" where
  "filteredTileAt util config c = map_option (\<lambda>tiles. tileAt tiles c) (filteredTiles util config)"

definition returnedTileAt ::
  "'r HexUtil \<Rightarrow> MapConfig \<Rightarrow> AxialCoordinates \<Rightarrow> TileDefinition option option" where
  "returnedTileAt util config c =
     map_option (\<lambda>res. tileAt (Tiles (returned res)) c) (BuildMapDefinition util config)"

text \<open>
  A coordinate is traversable in a grid when a path of ring-1 steps leads to it from the
  origin without stepping onto a Water tile; the path may start on a Water tile at the
  origin and may step onto coordinates that hold no tile.
\<close>

definition waterTile :: "TileMap \<Rightarrow> AxialCoordinates \<Rightarrow> bool" where
  "waterTile tiles c = (case tileAt tiles c of None \<Rightarrow> False | Some t \<Rightarrow> Type t = TileType_Water)"

inductive traversable :: "TileMap \<Rightarrow> AxialCoordinates \<Rightarrow> bool" for tiles :: TileMap where
  traversable_origin: "traversable tiles (Axial 0 0)"
| traversable_step: "traversable tiles c \<Longrightarrow> n \<in> set (getNearbyCoordinates c 1) \<Longrightarrow>
                     \<not> waterTile tiles n \<Longrightarrow> traversable tiles n"

definition filteredLandCount :: "'r HexUtil \<Rightarrow> MapConfig \<Rightarrow> int option" where
  "filteredLandCount util config =
     map_option (\<lambda>tiles. int (card (typedCoords TileType_Land tiles))) (filteredTiles util config)"

definition filteredTypeAt :: "'r HexUtil \<Rightarrow> MapConfig \<Rightarrow> AxialCoordinates \<Rightarrow> TileType option option" where
  "filteredTypeAt util config c = map_option (map_option Type) (filteredTileAt util config c)"

definition returnedTypeAt :: "'r HexUtil \<Rightarrow> MapConfig \<Rightarrow> AxialCoordinates \<Rightarrow> TileType option option" where
  "returnedTypeAt util config c = map_option (map_option Type) (returnedTileAt util config c)"

text \<open>What holds between two passes of the town loop when the sampler keeps its contract.\<close>

definition placeInv :: "TileMap \<Rightarrow> 'r Placement \<Rightarrow> bool" where
  "placeInv ft s \<longleftrightarrow>
     finite (typedCoords TileType_Land (placedTiles s))
     \<and> int (card (typedCoords TileType_Land (placedTiles s))) + townsGenerated s
         = int (card (typedCoords TileType_Land ft))
     \<and> promoted ft (placedTiles s)
     \<and> 0 \<le> townExclusionZoneRadius s
     \<and> 0 \<le> townExclusionZoneRetries s \<and> townExclusionZoneRetries s \<le> 2"

definition placeMeasure :: "MapConfig \<Rightarrow> 'r Placement \<Rightarrow> nat" where
  "placeMeasure config s =
     nat (TotalTowns config - townsGenerated s)
     + nat (3 * (townExclusionZoneRadius s + 1) - townExclusionZoneRetries s)"

text \<open>The state in which the town loop starts on the unfiltered grid of an example.\<close>

definition exampleStart :: "unit Placement" where
  "exampleStart =
     placementStart (exampleUtil [Axial 0 0, Axial 1 0] 0.5 (- 1) [Axial 1 0, Axial 0 0])
       (exampleConfig 1 3 None)
       (createInitialMap (exampleUtil [Axial 0 0, Axial 1 0] 0.5 (- 1) [Axial 1 0, Axial 0 0])
          (exampleConfig 1 3 None) 0.5 (- 0.4))"


section \<open>Properties of the collaborator models\<close>

lemma getNearbyCoordinates_1: "getNearbyCoordinates c 1 = ring1 c"
proof -
  have u: "[- 1 .. (1::int)] = [-1, 0, 1]" "[0 .. (1::int)] = [0, 1]" "[- 1 .. (0::int)] = [-1, 0]"
    by (simp_all add: upto.simps)
  have ne: "Axial (X c - 1) (Z c) \<noteq> c" "Axial (X c - 1) (Z c + 1) \<noteq> c"
    "Axial (X c) (Z c + 1) \<noteq> c" "Axial (X c) (Z c - 1) \<noteq> c"
    "Axial (X c + 1) (Z c) \<noteq> c" "Axial (X c + 1) (Z c - 1) \<noteq> c"
    by (cases c; simp)+
  have eq: "Axial (X c) (Z c) = c" by simp
  show ?thesis
    using ne by (simp add: getNearbyCoordinates_def ring1_def u eq)
qed

lemma anyHasWater_iff:
  "anyHasWater noise seed radius waterLevel cs = (\<exists>n \<in> set cs. noise n seed radius \<le> waterLevel)"
  by (induction cs) (auto simp: tileHasWater_def)

lemma hex_unit_step:
  "max (max \<bar>dx\<bar> \<bar>dz\<bar>) \<bar>- dx - dz\<bar> = (1::int) \<longleftrightarrow>
     (dx = -1 \<and> dz = 1) \<or> (dx = -1 \<and> dz = 0) \<or> (dx = 0 \<and> dz = 1) \<or>
     (dx = 0 \<and> dz = -1) \<or> (dx = 1 \<and> dz = 0) \<or> (dx = 1 \<and> dz = -1)"
proof
  assume a: "max (max \<bar>dx\<bar> \<bar>dz\<bar>) \<bar>- dx - dz\<bar> = (1::int)"
  then have "\<bar>dx\<bar> \<le> 1" "\<bar>dz\<bar> \<le> 1" "\<bar>- dx - dz\<bar> \<le> 1" by linarith+
  then have "dx = -1 \<or> dx = 0 \<or> dx = 1" "dz = -1 \<or> dz = 0 \<or> dz = 1" by linarith+
  with a show "(dx = -1 \<and> dz = 1) \<or> (dx = -1 \<and> dz = 0) \<or> (dx = 0 \<and> dz = 1) \<or>
     (dx = 0 \<and> dz = -1) \<or> (dx = 1 \<and> dz = 0) \<or> (dx = 1 \<and> dz = -1)"
    by (elim disjE) simp_all
next
  assume "(dx = -1 \<and> dz = 1) \<or> (dx = -1 \<and> dz = 0) \<or> (dx = 0 \<and> dz = 1) \<or>
     (dx = 0 \<and> dz = -1) \<or> (dx = 1 \<and> dz = 0) \<or> (dx = 1 \<and> dz = -1)"
  then show "max (max \<bar>dx\<bar> \<bar>dz\<bar>) \<bar>- dx - dz\<bar> = (1::int)"
    by (elim disjE conjE) simp_all
qed

lemma set_ring1:
  "n \<in> set (ring1 axial) \<longleftrightarrow> cubeDistance (Axial (X n - X axial) (Z n - Z axial)) = 1"
proof -
  obtain x z where ax: "axial = Axial x z" by (cases axial)
  obtain dx dz where n: "n = Axial (x + dx) (z + dz)"
    by (cases n) (metis add_diff_cancel_left' diff_add_cancel add.commute)
  have "n \<in> set (ring1 axial) \<longleftrightarrow>
     (dx = -1 \<and> dz = 1) \<or> (dx = -1 \<and> dz = 0) \<or> (dx = 0 \<and> dz = 1) \<or>
     (dx = 0 \<and> dz = -1) \<or> (dx = 1 \<and> dz = 0) \<or> (dx = 1 \<and> dz = -1)"
    by (simp add: ax n ring1_def)
  also have "\<dots> \<longleftrightarrow> cubeDistance (Axial (X n - X axial) (Z n - Z axial)) = 1"
    by (simp add: ax n cubeDistance_def hex_unit_step)
  finally show ?thesis .
qed

lemma ring1_six: "length (ring1 c) = 6 \<and> distinct (ring1 c)"
  by (simp add: ring1_def)

section \<open>The grid the builder makes\<close>

lemma Axial_eq_iff: "c = Axial a b \<longleftrightarrow> X c = a \<and> Z c = b"
  by (cases c) auto

lemma tileAt_setTile:
  "tileAt (setTile tiles x z t) c = (if c = Axial x z then Some t else tileAt tiles c)"
  by (cases c) (auto simp: tileAt_def setTile_def Let_def split: option.splits)

lemma tileAt_fold_setTile:
  "tileAt (fold (\<lambda>y acc. setTile acc x (- x - y) (f (- x - y))) ys tiles) c =
     (if X c = x \<and> - x - Z c \<in> set ys then Some (f (Z c)) else tileAt tiles c)"
proof (induction ys arbitrary: tiles)
  case Nil
  then show ?case by simp
next
  case (Cons y ys)
  show ?case
    by (auto simp: Cons.IH tileAt_setTile Axial_eq_iff)
qed

lemma tileAt_createRow:
  "tileAt (createRow util config seed waterLevel x tiles) c =
     (if X c = x \<and> inRow (Radius config) x (Z c)
      then Some (initialTile util config seed waterLevel x (Z c)) else tileAt tiles c)"
  unfolding createRow_def inRow_def
  by (simp add: tileAt_fold_setTile [where f = "initialTile util config seed waterLevel x"])

lemma tileAt_fold_createRow:
  "tileAt (fold (createRow util config seed waterLevel) xs tiles) c =
     (if X c \<in> set xs \<and> inRow (Radius config) (X c) (Z c)
      then Some (initialTile util config seed waterLevel (X c) (Z c)) else tileAt tiles c)"
proof (induction xs arbitrary: tiles)
  case Nil
  then show ?case by simp
next
  case (Cons x xs)
  show ?case by (auto simp: Cons.IH tileAt_createRow)
qed

lemma inRow_cubeDistance:
  "- r \<le> x \<and> x \<le> r \<and> inRow r x z \<longleftrightarrow> cubeDistance (Axial x z) \<le> r"
  unfolding inRow_def cubeDistance_def by simp linarith

lemma tileAt_createInitialMap:
  "tileAt (createInitialMap util config seed waterLevel) c =
     (if cubeDistance c \<le> Radius config
      then Some (initialTile util config seed waterLevel (X c) (Z c)) else None)"
proof -
  have "tileAt Map.empty c = None" by (simp add: tileAt_def)
  then show ?thesis
    unfolding createInitialMap_def tileAt_fold_createRow
    using inRow_cubeDistance [of "Radius config" "X c" "Z c"] by simp
qed

lemma hex_row_sum:
  "(\<Sum>x \<in> {- int n .. int n}. 2 * int n + 1 - \<bar>x\<bar>) = 3 * (int n)\<^sup>2 + 3 * int n + 1"
proof (induction n)
  case 0
  then show ?case by simp
next
  case (Suc n)
  have split: "{- int (Suc n) .. int (Suc n)} =
               insert (- int n - 1) (insert (int n + 1) {- int n .. int n})"
    by auto
  have "(\<Sum>x \<in> {- int n .. int n}. 2 * int (Suc n) + 1 - \<bar>x\<bar>) =
        (\<Sum>x \<in> {- int n .. int n}. (2 * int n + 1 - \<bar>x\<bar>) + 2)"
    by (rule sum.cong [OF refl]) simp
  also have "\<dots> = (\<Sum>x \<in> {- int n .. int n}. 2 * int n + 1 - \<bar>x\<bar>)
                    + (\<Sum>x \<in> {- int n .. int n}. 2)"
    by (rule sum.distrib)
  also have "(\<Sum>x \<in> {- int n .. int n}. (2::int)) = 2 * (2 * int n + 1)"
    by simp
  finally have inner: "(\<Sum>x \<in> {- int n .. int n}. 2 * int (Suc n) + 1 - \<bar>x\<bar>) =
        3 * (int n)\<^sup>2 + 3 * int n + 1 + 2 * (2 * int n + 1)"
    using Suc.IH by simp
  have "(\<Sum>x \<in> {- int (Suc n) .. int (Suc n)}. 2 * int (Suc n) + 1 - \<bar>x\<bar>) =
        (2 * int (Suc n) + 1 - \<bar>- int n - 1\<bar>) + ((2 * int (Suc n) + 1 - \<bar>int n + 1\<bar>)
         + (\<Sum>x \<in> {- int n .. int n}. 2 * int (Suc n) + 1 - \<bar>x\<bar>))"
    unfolding split by (subst sum.insert; simp)+
  also have "\<dots> = 3 * (int (Suc n))\<^sup>2 + 3 * int (Suc n) + 1"
    unfolding inner by (simp add: power2_eq_square algebra_simps)
  finally show ?case .
qed

lemma hexBall_Sigma:
  "hexBall r = (\<lambda>(x, z). Axial x z) `
     (SIGMA x : {- r .. r}. {max (- r) (- x - r) .. min r (- x + r)})"
proof (rule set_eqI)
  fix c
  obtain x z where c: "c = Axial x z" by (cases c)
  have "c \<in> hexBall r \<longleftrightarrow> - r \<le> x \<and> x \<le> r \<and> max (- r) (- x - r) \<le> z \<and> z \<le> min r (- x + r)"
    unfolding hexBall_def c cubeDistance_def by simp linarith
  also have "\<dots> \<longleftrightarrow> c \<in> (\<lambda>(x, z). Axial x z) `
     (SIGMA x : {- r .. r}. {max (- r) (- x - r) .. min r (- x + r)})"
    unfolding c by (auto simp: image_iff)
  finally show "c \<in> hexBall r \<longleftrightarrow> c \<in> (\<lambda>(x, z). Axial x z) `
     (SIGMA x : {- r .. r}. {max (- r) (- x - r) .. min r (- x + r)})" .
qed

lemma finite_hexBall: "finite (hexBall r)"
  unfolding hexBall_Sigma by (intro finite_imageI finite_SigmaI) simp_all

lemma card_hexBall:
  assumes "0 \<le> r"
  shows "int (card (hexBall r)) = 3 * r\<^sup>2 + 3 * r + 1"
proof -
  have inj: "inj_on (\<lambda>(x, z). Axial x z) A" for A
    by (auto simp: inj_on_def)
  have "card (hexBall r) = card (SIGMA x : {- r .. r}. {max (- r) (- x - r) .. min r (- x + r)})"
    unfolding hexBall_Sigma by (rule card_image [OF inj])
  also have "\<dots> = (\<Sum>x \<in> {- r .. r}. card {max (- r) (- x - r) .. min r (- x + r)})"
    by (rule card_SigmaI) simp_all
  finally have "int (card (hexBall r)) =
      (\<Sum>x \<in> {- r .. r}. int (card {max (- r) (- x - r) .. min r (- x + r)}))"
    by simp
  also have "\<dots> = (\<Sum>x \<in> {- r .. r}. 2 * r + 1 - \<bar>x\<bar>)"
  proof (rule sum.cong)
    fix x assume "x \<in> {- r .. r}"
    then show "int (card {max (- r) (- x - r) .. min r (- x + r)}) = 2 * r + 1 - \<bar>x\<bar>"
      by (simp add: max_def min_def)
  qed simp
  also have "\<dots> = 3 * r\<^sup>2 + 3 * r + 1"
    using hex_row_sum [of "nat r"] assms by simp
  finally show ?thesis .
qed

section \<open>The flood fill\<close>

lemma floodLoop_invariant:
  assumes run: "floodLoop util config seed waterLevel st = Some r"
    and init: "I st"
    and step: "\<And>s. I s \<Longrightarrow> visitIdx s < length (toVisit s) \<Longrightarrow>
                 I (floodStep util config seed waterLevel s)"
  shows "I r \<and> length (toVisit r) \<le> visitIdx r"
proof -
  define P where "P = (\<lambda>(u :: 'a HexUtil) c sd w s0 s1.
      u = util \<and> c = config \<and> sd = seed \<and> w = waterLevel \<and> I s0
      \<longrightarrow> I s1 \<and> length (toVisit s1) \<le> visitIdx s1)"
  have "P util config seed waterLevel st r"
  proof (rule floodLoop.raw_induct [where P = P, OF _ run])
    fix f :: "'a HexUtil \<Rightarrow> MapConfig \<Rightarrow> real \<Rightarrow> real \<Rightarrow> FloodState \<Rightarrow> FloodState option"
    fix u c sd w s0 s1
    assume IH: "\<And>u c sd w s0 s1. f u c sd w s0 = Some s1 \<Longrightarrow> P u c sd w s0 s1"
      and eq: "(if visitIdx s0 < length (toVisit s0) then f u c sd w (floodStep u c sd w s0)
                else Some s0) = Some s1"
    show "P u c sd w s0 s1"
    proof (cases "visitIdx s0 < length (toVisit s0)")
      case True
      with eq have "f u c sd w (floodStep u c sd w s0) = Some s1" by simp
      from IH [OF this] have "P u c sd w (floodStep u c sd w s0) s1" .
      with True step show ?thesis unfolding P_def by simp
    next
      case False
      with eq show ?thesis unfolding P_def by auto
    qed
  qed
  with init show ?thesis unfolding P_def by simp
qed

lemma visitNeighbors_step:
  assumes "markInv (heightAt util config seed) waterLevel s"
    and "reachable (heightAt util config seed) waterLevel cur"
    and "set ns \<subseteq> set (getNearbyCoordinates cur 1)"
  shows "markInv (heightAt util config seed) waterLevel (visitNeighbors util config seed waterLevel ns s)
       \<and> (\<forall>n \<in> set ns. visited (visitNeighbors util config seed waterLevel ns s) n \<noteq> None)
       \<and> (\<forall>c. visited s c \<noteq> None \<longrightarrow>
              visited (visitNeighbors util config seed waterLevel ns s) c = visited s c)
       \<and> (\<exists>ys. toVisit (visitNeighbors util config seed waterLevel ns s) = toVisit s @ ys)
       \<and> visitIdx (visitNeighbors util config seed waterLevel ns s) = visitIdx s"
  using assms
proof (induction ns arbitrary: s)
  case Nil
  then show ?case by simp
next
  case (Cons n ns)
  let ?h = "heightAt util config seed"
  have sub: "set ns \<subseteq> set (getNearbyCoordinates cur 1)" and nin: "n \<in> set (getNearbyCoordinates cur 1)"
    using Cons.prems(3) by auto
  show ?case
  proof (cases "visited s n = None")
    case False
    have eq: "visitNeighbors util config seed waterLevel (n # ns) s
              = visitNeighbors util config seed waterLevel ns s"
      using False by (auto simp: Let_def)
    from Cons.IH [OF Cons.prems(1) Cons.prems(2) sub] False show ?thesis
      unfolding eq by auto
  next
    case True
    note unv = True
    show ?thesis
    proof (cases "?h n \<le> waterLevel")
      case True
      let ?s1 = "s\<lparr>visited := (visited s)(n \<mapsto> False)\<rparr>"
      have eq: "visitNeighbors util config seed waterLevel (n # ns) s
                = visitNeighbors util config seed waterLevel ns ?s1"
        using unv True by (simp add: heightAt_def)
      have n0: "n \<noteq> Axial 0 0" using Cons.prems(1) unv by (auto simp: markInv_def)
      have m1: "markInv ?h waterLevel ?s1"
        using Cons.prems(1) unv True n0 unfolding markInv_def by auto
      have keep: "\<forall>c. visited s c \<noteq> None \<longrightarrow> visited ?s1 c = visited s c"
        using unv by auto
      from Cons.IH [OF m1 Cons.prems(2) sub] keep show ?thesis
        unfolding eq by (auto split: if_splits)
    next
      case False
      let ?s1 = "s\<lparr>visited := (visited s)(n \<mapsto> True), toVisit := toVisit s @ [n]\<rparr>"
      have eq: "visitNeighbors util config seed waterLevel (n # ns) s
                = visitNeighbors util config seed waterLevel ns ?s1"
        using unv False by (simp add: heightAt_def)
      have n0: "n \<noteq> Axial 0 0" using Cons.prems(1) unv by (auto simp: markInv_def)
      have rn: "reachable ?h waterLevel n"
        using reachable_step [OF Cons.prems(2) nin] False by simp
      have nq: "n \<notin> set (toVisit s)" using Cons.prems(1) unv by (auto simp: markInv_def)
      have m1: "markInv ?h waterLevel ?s1"
        using Cons.prems(1) unv False n0 rn nq unfolding markInv_def by auto
      have keep: "\<forall>c. visited s c \<noteq> None \<longrightarrow> visited ?s1 c = visited s c"
        using unv by auto
      from Cons.IH [OF m1 Cons.prems(2) sub] keep show ?thesis
        unfolding eq by (auto split: if_splits)
    qed
  qed
qed

lemma floodInv_start: "floodInv h waterLevel floodStart"
  by (auto simp: floodInv_def markInv_def floodStart_def intro: reachable_origin)

lemma floodInv_step:
  assumes inv: "floodInv (heightAt util config seed) waterLevel s"
    and more: "visitIdx s < length (toVisit s)"
  shows "floodInv (heightAt util config seed) waterLevel (floodStep util config seed waterLevel s)"
proof -
  let ?h = "heightAt util config seed"
  let ?cur = "toVisit s ! visitIdx s"
  let ?s1 = "visitNeighbors util config seed waterLevel (getNearbyCoordinates ?cur 1) s"
  have m: "markInv ?h waterLevel s" using inv by (simp add: floodInv_def)
  have "?cur \<in> set (toVisit s)" using more by simp
  then have "visited s ?cur = Some True" using m by (auto simp: markInv_def)
  then have rc: "reachable ?h waterLevel ?cur" using m by (simp add: markInv_def)
  from visitNeighbors_step [OF m rc subset_refl]
  have m1: "markInv ?h waterLevel ?s1"
    and all: "\<forall>n \<in> set (getNearbyCoordinates ?cur 1). visited ?s1 n \<noteq> None"
    and keep: "\<forall>c. visited s c \<noteq> None \<longrightarrow> visited ?s1 c = visited s c"
    and pre: "\<exists>ys. toVisit ?s1 = toVisit s @ ys"
    and idx: "visitIdx ?s1 = visitIdx s"
    by blast+
  from pre obtain ys where ys: "toVisit ?s1 = toVisit s @ ys" by blast
  have nth: "toVisit ?s1 ! i = toVisit s ! i" if "i < length (toVisit s)" for i
    using that by (simp add: ys nth_append)
  have cover: "visited ?s1 n \<noteq> None"
    if i: "i < Suc (visitIdx s)" and n: "n \<in> set (getNearbyCoordinates (toVisit ?s1 ! i) 1)" for i n
  proof (cases "i = visitIdx s")
    case True
    with n nth [OF more] all show ?thesis by simp
  next
    case False
    with i have lt: "i < visitIdx s" by simp
    then have "toVisit ?s1 ! i = toVisit s ! i" using more nth by simp
    with n lt inv have "visited s n \<noteq> None" by (simp add: floodInv_def)
    with keep show ?thesis by simp
  qed
  have len: "Suc (visitIdx s) \<le> length (toVisit ?s1)" using more by (simp add: ys)
  show ?thesis
    unfolding floodInv_def floodStep_def using m1 cover len by (simp add: markInv_def)
qed

lemma floodLoop_result:
  assumes "floodLoop util config seed waterLevel floodStart = Some r"
  shows "floodInv (heightAt util config seed) waterLevel r \<and> visitIdx r = length (toVisit r)"
proof -
  have "floodInv (heightAt util config seed) waterLevel r \<and> length (toVisit r) \<le> visitIdx r"
    by (rule floodLoop_invariant
          [where I = "floodInv (heightAt util config seed) waterLevel", OF assms floodInv_start])
       (rule floodInv_step)
  then show ?thesis by (auto simp: floodInv_def)
qed

lemma floodFill_visited:
  assumes "floodFill util config seed waterLevel = Some vis"
  shows "vis c = Some True \<longleftrightarrow> reachable (heightAt util config seed) waterLevel c"
proof -
  let ?h = "heightAt util config seed"
  from assms obtain r where run: "floodLoop util config seed waterLevel floodStart = Some r"
    and vis: "vis = visited r"
    by (auto simp: floodFill_def)
  from floodLoop_result [OF run] have inv: "floodInv ?h waterLevel r"
    and fin: "visitIdx r = length (toVisit r)" by simp_all
  then have m: "markInv ?h waterLevel r" by (simp add: floodInv_def)
  have "visited r c = Some True" if "reachable ?h waterLevel c"
    using that
  proof (induction rule: reachable.induct)
    case reachable_origin
    then show ?case using m by (simp add: markInv_def)
  next
    case (reachable_step c n)
    then have "c \<in> set (toVisit r)" using m by (simp add: markInv_def)
    then obtain i where i: "i < length (toVisit r)" "toVisit r ! i = c"
      by (auto simp: in_set_conv_nth)
    with inv fin reachable_step.hyps(2) have "visited r n \<noteq> None"
      by (auto simp: floodInv_def)
    then obtain b where b: "visited r n = Some b" by auto
    show ?case
    proof (cases "n = Axial 0 0")
      case True
      then show ?thesis using m by (simp add: markInv_def)
    next
      case False
      with m b have "b = (?h n > waterLevel)" unfolding markInv_def by blast
      with b reachable_step.hyps(3) show ?thesis by simp
    qed
  qed
  moreover have "reachable ?h waterLevel c" if "visited r c = Some True"
    using that m by (simp add: markInv_def)
  ultimately show ?thesis unfolding vis by blast
qed

lemma floodFill_sampled:
  assumes "floodFill util config seed waterLevel = Some vis"
    and "vis c = Some b" and "c \<noteq> Axial 0 0"
  shows "b = (heightAt util config seed c > waterLevel)"
proof -
  from assms(1) obtain r where run: "floodLoop util config seed waterLevel floodStart = Some r"
    and vis: "vis = visited r"
    by (auto simp: floodFill_def)
  from floodLoop_result [OF run] have "markInv (heightAt util config seed) waterLevel r"
    by (simp add: floodInv_def)
  with assms(2,3) show ?thesis unfolding vis markInv_def by blast
qed

lemma floodLoop_terminates:
  assumes init: "I st"
    and step: "\<And>s. I s \<Longrightarrow> visitIdx s < length (toVisit s) \<Longrightarrow>
                 I (floodStep util config seed waterLevel s)
                 \<and> m (floodStep util config seed waterLevel s) < (m s :: nat)"
  shows "\<exists>r. floodLoop util config seed waterLevel st = Some r"
  using init
proof (induction "m st" arbitrary: st rule: less_induct)
  case less
  show ?case
  proof (cases "visitIdx st < length (toVisit st)")
    case True
    from step [OF less.prems True]
    have "\<exists>r. floodLoop util config seed waterLevel (floodStep util config seed waterLevel st) = Some r"
      by (intro less.hyps) simp_all
    then show ?thesis using True by (subst floodLoop.simps) simp
  next
    case False
    then show ?thesis by (subst floodLoop.simps) simp
  qed
qed

lemma floodLoop_diverges:
  assumes init: "I st"
    and step: "\<And>s. I s \<Longrightarrow> visitIdx s < length (toVisit s)
                 \<and> I (floodStep util config seed waterLevel s)"
  shows "floodLoop util config seed waterLevel st = None"
proof (rule ccontr)
  assume "floodLoop util config seed waterLevel st \<noteq> None"
  then obtain r where run: "floodLoop util config seed waterLevel st = Some r" by auto
  have "I r \<and> length (toVisit r) \<le> visitIdx r"
    by (rule floodLoop_invariant [where I = I, OF run init]) (simp add: step)
  with step [of r] show False by simp
qed

lemma neighbour_closed_infinite:
  assumes fin: "finite S" and ne: "S \<noteq> {}"
    and closed: "\<And>c n. c \<in> S \<Longrightarrow> n \<in> set (getNearbyCoordinates c 1) \<Longrightarrow> n \<in> S"
  shows False
proof -
  have fx: "finite (X ` S)" and nx: "X ` S \<noteq> {}" using fin ne by simp_all
  from Max_in [OF fx nx] obtain c where c: "c \<in> S" "X c = Max (X ` S)" by auto
  have "Axial (X c + 1) (Z c) \<in> set (getNearbyCoordinates c 1)"
    by (simp add: getNearbyCoordinates_1 ring1_def)
  from closed [OF c(1) this] have "X (Axial (X c + 1) (Z c)) \<in> X ` S"
    by (rule imageI)
  then have "X (Axial (X c + 1) (Z c)) \<le> Max (X ` S)"
    using fx by (rule_tac Max_ge)
  with c(2) show False by simp
qed

lemma reachable_finite_if_returns:
  assumes "floodFill util config seed waterLevel = Some vis"
  shows "finite {c. reachable (heightAt util config seed) waterLevel c}"
proof -
  from assms obtain r where run: "floodLoop util config seed waterLevel floodStart = Some r"
    and vis: "vis = visited r"
    by (auto simp: floodFill_def)
  from floodLoop_result [OF run] have "set (toVisit r) = {c. visited r c = Some True}"
    by (simp add: floodInv_def markInv_def)
  also have "\<dots> = {c. reachable (heightAt util config seed) waterLevel c}"
    using floodFill_visited [OF assms] unfolding vis by simp
  finally show ?thesis by (metis List.finite_set)
qed

lemma returns_if_reachable_finite:
  assumes fin: "finite {c. reachable (heightAt util config seed) waterLevel c}"
  shows "\<exists>vis. floodFill util config seed waterLevel = Some vis"
proof -
  let ?h = "heightAt util config seed"
  let ?R = "{c. reachable ?h waterLevel c}"
  have bound: "length (toVisit s) \<le> card ?R" if "floodInv ?h waterLevel s" for s
  proof -
    from that have d: "distinct (toVisit s)" and sub: "set (toVisit s) \<subseteq> ?R"
      by (auto simp: floodInv_def markInv_def)
    have "length (toVisit s) = card (set (toVisit s))" using d by (simp add: distinct_card)
    also have "\<dots> \<le> card ?R" by (rule card_mono [OF fin sub])
    finally show ?thesis .
  qed
  have "\<exists>r. floodLoop util config seed waterLevel floodStart = Some r"
  proof (rule floodLoop_terminates
      [where I = "floodInv ?h waterLevel" and m = "\<lambda>s. card ?R - visitIdx s"])
    show "floodInv ?h waterLevel floodStart" by (rule floodInv_start)
  next
    fix s assume inv: "floodInv ?h waterLevel s" and more: "visitIdx s < length (toVisit s)"
    have inv': "floodInv ?h waterLevel (floodStep util config seed waterLevel s)"
      by (rule floodInv_step [OF inv more])
    have "visitIdx (floodStep util config seed waterLevel s) = Suc (visitIdx s)"
      by (simp add: floodStep_def)
    moreover have "visitIdx s < card ?R" using bound [OF inv] more by simp
    ultimately show "floodInv ?h waterLevel (floodStep util config seed waterLevel s)
      \<and> card ?R - visitIdx (floodStep util config seed waterLevel s) < card ?R - visitIdx s"
      using inv' by simp
  qed
  then show ?thesis by (auto simp: floodFill_def)
qed

lemma floodFill_diverges_above_water:
  assumes high: "\<And>c. heightAt util config seed c > waterLevel"
  shows "floodFill util config seed waterLevel = None"
proof (rule ccontr)
  assume "floodFill util config seed waterLevel \<noteq> None"
  then obtain vis where v: "floodFill util config seed waterLevel = Some vis" by auto
  let ?R = "{c. reachable (heightAt util config seed) waterLevel c}"
  have "finite ?R" by (rule reachable_finite_if_returns [OF v])
  moreover have "?R \<noteq> {}" using reachable_origin by blast
  moreover have "n \<in> ?R" if "c \<in> ?R" "n \<in> set (getNearbyCoordinates c 1)" for c n
    using that high [of n] by (auto intro: reachable_step)
  ultimately show False by (rule neighbour_closed_infinite)
qed

lemma reachable_in_ball:
  assumes decay: "\<And>c. cubeDistance c > d \<Longrightarrow> heightAt util config seed c \<le> waterLevel"
    and r: "reachable (heightAt util config seed) waterLevel c"
  shows "c \<in> hexBall (max d 0)"
  using r
proof (induction rule: reachable.induct)
  case reachable_origin
  then show ?case by (simp add: hexBall_def cubeDistance_def)
next
  case (reachable_step c n)
  from decay [of n] reachable_step.hyps(3) have "cubeDistance n \<le> d" by (rule_tac ccontr) auto
  then show ?case by (simp add: hexBall_def)
qed

lemma set_getNearbyCoordinates:
  "set (getNearbyCoordinates c r) = {n. cubeDistanceBetween c n \<le> r \<and> \<not> (0 < r \<and> n = c)}"
proof (rule set_eqI)
  fix n
  obtain x z where c: "c = Axial x z" by (cases c)
  obtain a b where n: "n = Axial a b" by (cases n)
  have "n \<in> set (concat (map (\<lambda>dx. map (\<lambda>dy. Axial (X c + dx) (Z c + (- dx - dy)))
                      [max (- r) (- dx - r) .. min r (- dx + r)]) [- r .. r]))
        \<longleftrightarrow> (\<exists>dx \<in> {- r .. r}. \<exists>dy \<in> {max (- r) (- dx - r) .. min r (- dx + r)}.
               n = Axial (X c + dx) (Z c + (- dx - dy)))"
    by (simp add: image_iff)
  also have "\<dots> \<longleftrightarrow> - r \<le> a - x \<and> a - x \<le> r
                 \<and> max (- r) (- (a - x) - r) \<le> - (a - x) - (b - z)
                 \<and> - (a - x) - (b - z) \<le> min r (- (a - x) + r)"
  proof
    assume "\<exists>dx \<in> {- r .. r}. \<exists>dy \<in> {max (- r) (- dx - r) .. min r (- dx + r)}.
               n = Axial (X c + dx) (Z c + (- dx - dy))"
    then obtain dx dy where h: "dx \<in> {- r .. r}" "dy \<in> {max (- r) (- dx - r) .. min r (- dx + r)}"
      "n = Axial (X c + dx) (Z c + (- dx - dy))" by blast
    have "dx = a - x" "dy = - (a - x) - (b - z)" using h(3) unfolding c n by simp_all
    with h(1,2) show "- r \<le> a - x \<and> a - x \<le> r
                 \<and> max (- r) (- (a - x) - r) \<le> - (a - x) - (b - z)
                 \<and> - (a - x) - (b - z) \<le> min r (- (a - x) + r)" by simp
  next
    assume h: "- r \<le> a - x \<and> a - x \<le> r
                 \<and> max (- r) (- (a - x) - r) \<le> - (a - x) - (b - z)
                 \<and> - (a - x) - (b - z) \<le> min r (- (a - x) + r)"
    have 1: "a - x \<in> {- r .. r}" using h by simp
    have 2: "- (a - x) - (b - z) \<in> {max (- r) (- (a - x) - r) .. min r (- (a - x) + r)}"
      using h by simp
    have 3: "n = Axial (X c + (a - x)) (Z c + (- (a - x) - (- (a - x) - (b - z))))"
      unfolding c n by simp
    show "\<exists>dx \<in> {- r .. r}. \<exists>dy \<in> {max (- r) (- dx - r) .. min r (- dx + r)}.
               n = Axial (X c + dx) (Z c + (- dx - dy))"
      by (rule bexI [OF _ 1], rule bexI [OF _ 2]) (rule 3)
  qed
  also have "\<dots> \<longleftrightarrow> cubeDistanceBetween c n \<le> r"
    unfolding c n cubeDistanceBetween_def cubeDistance_def by simp linarith
  finally show "n \<in> set (getNearbyCoordinates c r)
        \<longleftrightarrow> n \<in> {n. cubeDistanceBetween c n \<le> r \<and> \<not> (0 < r \<and> n = c)}"
    by (auto simp: getNearbyCoordinates_def)
qed

lemma cubeDistanceBetween_sym: "cubeDistanceBetween a b = cubeDistanceBetween b a"
  unfolding cubeDistanceBetween_def cubeDistance_def by simp linarith

lemma cubeDistanceBetween_pos: "a \<noteq> b \<Longrightarrow> 0 < cubeDistanceBetween a b"
  unfolding cubeDistanceBetween_def cubeDistance_def by (cases a; cases b) (simp, linarith)

section \<open>The town loop: one scan of the drawn tiles\<close>

lemma tileAt_setTown:
  "tileAt (setTown tiles c) c' =
     (if c' = c then map_option (\<lambda>t. t\<lparr>Type := TileType_Town\<rparr>) (tileAt tiles c)
      else tileAt tiles c')"
  by (cases c; cases c') (auto simp: tileAt_def setTown_def split: option.splits)

lemma canBeTown_iff:
  "canBeTown tiles ns \<longleftrightarrow> (\<forall>n \<in> set ns. n \<notin> typedCoords TileType_Town tiles)"
  by (induction ns) (auto simp: typedCoords_def tileAt_def split: option.splits)

lemma typedCoords_Town_setTown:
  "typedCoords TileType_Town (setTown tiles c) =
     typedCoords TileType_Town tiles \<union> ({c} \<inter> tileCoords tiles)"
  by (auto simp: typedCoords_def tileCoords_def tileAt_setTown split: if_splits)

lemma typedCoords_other_setTown:
  "ty \<noteq> TileType_Town \<Longrightarrow> typedCoords ty (setTown tiles c) = typedCoords ty tiles - {c}"
  by (auto simp: typedCoords_def tileAt_setTown split: if_splits)

lemma tileCoords_setTown: "tileCoords (setTown tiles c) = tileCoords tiles"
  by (auto simp: tileCoords_def tileAt_setTown split: if_splits)

lemma placeSeeds_tiles:
  "tileAt (scanTiles (placeSeeds r cs sc)) c = tileAt (scanTiles sc) c
   \<or> (c \<in> set cs \<and> tileAt (scanTiles (placeSeeds r cs sc)) c
          = map_option (\<lambda>t. t\<lparr>Type := TileType_Town\<rparr>) (tileAt (scanTiles sc) c))"
proof (induction cs arbitrary: sc)
  case Nil
  then show ?case by simp
next
  case (Cons x cs)
  show ?case
  proof (cases "canBeTown (scanTiles sc) (getNearbyCoordinates x r)")
    case False
    then show ?thesis using Cons.IH [of sc] by auto
  next
    case True
    let ?sc1 = "\<lparr>scanTiles = setTown (scanTiles sc) x, scanGenerated = scanGenerated sc + 1,
                 newTownThisIteration = True\<rparr>"
    have eq: "placeSeeds r (x # cs) sc = placeSeeds r cs ?sc1" using True by simp
    show ?thesis
    proof (cases "c = x")
      case True
      have "map_option (\<lambda>t. t\<lparr>Type := TileType_Town\<rparr>)
              (map_option (\<lambda>t. t\<lparr>Type := TileType_Town\<rparr>) (tileAt (scanTiles sc) x))
            = map_option (\<lambda>t. t\<lparr>Type := TileType_Town\<rparr>) (tileAt (scanTiles sc) x)"
        by (cases "tileAt (scanTiles sc) x") simp_all
      with Cons.IH [of ?sc1 ] True show ?thesis
        unfolding eq by (auto simp: tileAt_setTown)
    next
      case False
      with Cons.IH [of ?sc1] show ?thesis
        unfolding eq by (auto simp: tileAt_setTown)
    qed
  qed
qed

lemma placeSeeds_towns_grow:
  "typedCoords TileType_Town (scanTiles sc)
     \<subseteq> typedCoords TileType_Town (scanTiles (placeSeeds r cs sc))"
proof
  fix c assume "c \<in> typedCoords TileType_Town (scanTiles sc)"
  then obtain t where t: "tileAt (scanTiles sc) c = Some t" "Type t = TileType_Town"
    by (auto simp: typedCoords_def)
  with placeSeeds_tiles [of r cs sc c]
  show "c \<in> typedCoords TileType_Town (scanTiles (placeSeeds r cs sc))"
    by (auto simp: typedCoords_def)
qed

lemma spaced_setTown:
  assumes sp: "spaced r tiles" and ok: "canBeTown tiles (getNearbyCoordinates x r)"
  shows "spaced r (setTown tiles x)"
proof -
  have far: "cubeDistanceBetween x b > r" if "b \<in> typedCoords TileType_Town tiles" "b \<noteq> x" for b
  proof -
    from ok that(1) have "b \<notin> set (getNearbyCoordinates x r)" by (auto simp: canBeTown_iff)
    with that(2) show ?thesis by (simp add: set_getNearbyCoordinates)
  qed
  show ?thesis
    unfolding spaced_def typedCoords_Town_setTown
  proof (intro allI impI)
    fix a b
    assume a: "a \<in> typedCoords TileType_Town tiles \<union> ({x} \<inter> tileCoords tiles)"
      and b: "b \<in> typedCoords TileType_Town tiles \<union> ({x} \<inter> tileCoords tiles)"
      and ne: "a \<noteq> b"
    show "r < cubeDistanceBetween a b"
    proof (cases "a = x")
      case True
      with b ne have "b \<in> typedCoords TileType_Town tiles" "b \<noteq> x" by auto
      from far [OF this] True show ?thesis by simp
    next
      case False
      note ax = False
      show ?thesis
      proof (cases "b = x")
        case True
        with a ax have "a \<in> typedCoords TileType_Town tiles" by auto
        from far [OF this ax] True show ?thesis by (simp add: cubeDistanceBetween_sym)
      next
        case False
        with a b ax ne sp show ?thesis unfolding spaced_def by auto
      qed
    qed
  qed
qed

lemma placeSeeds_spaced:
  "spaced r (scanTiles sc) \<Longrightarrow> spaced r (scanTiles (placeSeeds r cs sc))"
proof (induction cs arbitrary: sc)
  case Nil
  then show ?case by simp
next
  case (Cons x cs)
  show ?case
  proof (cases "canBeTown (scanTiles sc) (getNearbyCoordinates x r)")
    case False
    then show ?thesis using Cons.IH [OF Cons.prems] by simp
  next
    case True
    let ?sc1 = "\<lparr>scanTiles = setTown (scanTiles sc) x, scanGenerated = scanGenerated sc + 1,
                 newTownThisIteration = True\<rparr>"
    have eq: "placeSeeds r (x # cs) sc = placeSeeds r cs ?sc1" using True by simp
    have "spaced r (scanTiles ?sc1)" using spaced_setTown [OF Cons.prems True] by simp
    from Cons.IH [OF this] show ?thesis unfolding eq .
  qed
qed

lemma spaced_mono: "r' \<le> r \<Longrightarrow> spaced r tiles \<Longrightarrow> spaced r' tiles"
  unfolding spaced_def by force

lemma promoted_refl: "promoted tiles tiles"
  by (simp add: promoted_def)

lemma promoted_trans:
  assumes "promoted a b" and "promoted b c"
  shows "promoted a c"
  unfolding promoted_def
proof
  fix x
  from assms(1) have 1: "tileAt b x = tileAt a x
        \<or> (\<exists>t. tileAt a x = Some t \<and> Type t = TileType_Land
                \<and> tileAt b x = Some (t\<lparr>Type := TileType_Town\<rparr>))"
    by (simp add: promoted_def)
  from assms(2) have 2: "tileAt c x = tileAt b x
        \<or> (\<exists>t. tileAt b x = Some t \<and> Type t = TileType_Land
                \<and> tileAt c x = Some (t\<lparr>Type := TileType_Town\<rparr>))"
    by (simp add: promoted_def)
  from 1 2 show "tileAt c x = tileAt a x
        \<or> (\<exists>t. tileAt a x = Some t \<and> Type t = TileType_Land
                \<and> tileAt c x = Some (t\<lparr>Type := TileType_Town\<rparr>))"
    by (elim disjE exE conjE) (simp_all, metis)
qed

lemma placeSeeds_promoted:
  assumes "set cs \<subseteq> typedCoords TileType_Land (scanTiles sc)"
  shows "promoted (scanTiles sc) (scanTiles (placeSeeds r cs sc))"
  unfolding promoted_def
proof
  fix c
  from placeSeeds_tiles [of r cs sc c] assms
  show "tileAt (scanTiles (placeSeeds r cs sc)) c = tileAt (scanTiles sc) c
        \<or> (\<exists>t. tileAt (scanTiles sc) c = Some t \<and> Type t = TileType_Land
                \<and> tileAt (scanTiles (placeSeeds r cs sc)) c = Some (t\<lparr>Type := TileType_Town\<rparr>))"
    by (auto simp: typedCoords_def)
qed

lemma placeSeeds_generated:
  "scanGenerated sc \<le> scanGenerated (placeSeeds r cs sc)
   \<and> (newTownThisIteration (placeSeeds r cs sc)
        \<longleftrightarrow> newTownThisIteration sc \<or> scanGenerated sc < scanGenerated (placeSeeds r cs sc))"
proof (induction cs arbitrary: sc)
  case Nil
  then show ?case by simp
next
  case (Cons x cs)
  show ?case
  proof (cases "canBeTown (scanTiles sc) (getNearbyCoordinates x r)")
    case False
    then show ?thesis using Cons.IH [of sc] by simp
  next
    case True
    let ?sc1 = "\<lparr>scanTiles = setTown (scanTiles sc) x, scanGenerated = scanGenerated sc + 1,
                 newTownThisIteration = True\<rparr>"
    have eq: "placeSeeds r (x # cs) sc = placeSeeds r cs ?sc1" using True by simp
    from Cons.IH [of ?sc1] show ?thesis unfolding eq by auto
  qed
qed

lemma placeSeeds_count:
  assumes "finite (typedCoords TileType_Land (scanTiles sc))"
    and "distinct cs"
    and "set cs \<subseteq> typedCoords TileType_Land (scanTiles sc)"
  shows "finite (typedCoords TileType_Land (scanTiles (placeSeeds r cs sc)))
       \<and> int (card (typedCoords TileType_Land (scanTiles (placeSeeds r cs sc))))
           + scanGenerated (placeSeeds r cs sc)
         = int (card (typedCoords TileType_Land (scanTiles sc))) + scanGenerated sc"
  using assms
proof (induction cs arbitrary: sc)
  case Nil
  then show ?case by simp
next
  case (Cons x cs)
  let ?L = "typedCoords TileType_Land (scanTiles sc)"
  have x: "x \<in> ?L" and d: "distinct cs" and xn: "x \<notin> set cs" and sub: "set cs \<subseteq> ?L"
    using Cons.prems by auto
  show ?case
  proof (cases "canBeTown (scanTiles sc) (getNearbyCoordinates x r)")
    case False
    then show ?thesis using Cons.IH [OF Cons.prems(1) d sub] by simp
  next
    case True
    let ?sc1 = "\<lparr>scanTiles = setTown (scanTiles sc) x, scanGenerated = scanGenerated sc + 1,
                 newTownThisIteration = True\<rparr>"
    have eq: "placeSeeds r (x # cs) sc = placeSeeds r cs ?sc1" using True by simp
    have L1: "typedCoords TileType_Land (scanTiles ?sc1) = ?L - {x}"
      by (simp add: typedCoords_other_setTown)
    have f1: "finite (typedCoords TileType_Land (scanTiles ?sc1))"
      unfolding L1 using Cons.prems(1) by simp
    have s1: "set cs \<subseteq> typedCoords TileType_Land (scanTiles ?sc1)"
      unfolding L1 using sub xn by auto
    have "card ?L \<ge> 1" using x Cons.prems(1) by (metis One_nat_def Suc_leI card_gt_0_iff empty_iff)
    then have c1: "int (card (?L - {x})) + 1 = int (card ?L)"
      using x Cons.prems(1) by (simp add: card_Diff_singleton)
    from Cons.IH [OF f1 d s1] c1 show ?thesis
      unfolding eq L1 by simp
  qed
qed

section \<open>The town loop: passes\<close>

lemma placeTowns_invariant:
  assumes run: "placeTowns util config st = Some r"
    and init: "I st"
    and step: "\<And>s. I s \<Longrightarrow> townsGenerated s < TotalTowns config \<Longrightarrow>
                 townExclusionZoneRadius (placeRound util config s) \<noteq> - 1 \<Longrightarrow>
                 I (printTowns config (placeRound util config s))"
  shows "(I r \<and> \<not> townsGenerated r < TotalTowns config)
       \<or> (\<exists>s. I s \<and> townsGenerated s < TotalTowns config
              \<and> townExclusionZoneRadius (placeRound util config s) = - 1
              \<and> r = warnFailed config (placeRound util config s))"
proof -
  define Q where "Q = (\<lambda>r. (I r \<and> \<not> townsGenerated r < TotalTowns config)
       \<or> (\<exists>s. I s \<and> townsGenerated s < TotalTowns config
              \<and> townExclusionZoneRadius (placeRound util config s) = - 1
              \<and> r = warnFailed config (placeRound util config s)))"
  define P where "P = (\<lambda>(u :: 'a HexUtil) c s0 s1. u = util \<and> c = config \<and> I s0 \<longrightarrow> Q s1)"
  have "P util config st r"
  proof (rule placeTowns.raw_induct [where P = P, OF _ run])
    fix f :: "'a HexUtil \<Rightarrow> MapConfig \<Rightarrow> 'a Placement \<Rightarrow> 'a Placement option"
    fix u c s0 s1
    assume IH: "\<And>u c s0 s1. f u c s0 = Some s1 \<Longrightarrow> P u c s0 s1"
      and eq: "(if townsGenerated s0 < TotalTowns c then
                  (if townExclusionZoneRadius (placeRound u c s0) = - 1
                   then Some (warnFailed c (placeRound u c s0))
                   else f u c (printTowns c (placeRound u c s0)))
                else Some s0) = Some s1"
    show "P u c s0 s1"
      unfolding P_def
    proof (intro impI, elim conjE)
      assume u: "u = util" and c: "c = config" and i: "I s0"
      show "Q s1"
      proof (cases "townsGenerated s0 < TotalTowns config")
        case False
        with eq c have "s1 = s0" by simp
        with i False show ?thesis unfolding Q_def by simp
      next
        case True
        note more = True
        show ?thesis
        proof (cases "townExclusionZoneRadius (placeRound util config s0) = - 1")
          case True
          with eq more u c have "s1 = warnFailed config (placeRound util config s0)" by simp
          with i more True show ?thesis unfolding Q_def by blast
        next
          case False
          with eq more u c have "f util config (printTowns config (placeRound util config s0)) = Some s1"
            by simp
          from IH [OF this] step [OF i more False] show ?thesis unfolding P_def by simp
        qed
      qed
    qed
  qed
  with init show ?thesis unfolding P_def Q_def by simp
qed

lemma placeTowns_terminates:
  assumes init: "I st"
    and step: "\<And>s. I s \<Longrightarrow> townsGenerated s < TotalTowns config \<Longrightarrow>
                 townExclusionZoneRadius (placeRound util config s) \<noteq> - 1 \<Longrightarrow>
                 I (printTowns config (placeRound util config s))
                 \<and> m (printTowns config (placeRound util config s)) < (m s :: nat)"
  shows "\<exists>r. placeTowns util config st = Some r"
  using init
proof (induction "m st" arbitrary: st rule: less_induct)
  case less
  show ?case
  proof (cases "townsGenerated st < TotalTowns config
                \<and> townExclusionZoneRadius (placeRound util config st) \<noteq> - 1")
    case True
    from step [OF less.prems] True
    have "\<exists>r. placeTowns util config (printTowns config (placeRound util config st)) = Some r"
      by (intro less.hyps) simp_all
    then show ?thesis using True by (subst placeTowns.simps) simp
  next
    case False
    then show ?thesis by (subst placeTowns.simps) auto
  qed
qed

lemma placeTowns_none_needed:
  "\<not> townsGenerated st < TotalTowns config \<Longrightarrow> placeTowns util config st = Some st"
  by (subst placeTowns.simps) simp

text \<open>One pass of the loop body.\<close>

lemma placeRound_fields:
  "placedTiles (placeRound util config s) =
     scanTiles (placeSeeds (townExclusionZoneRadius s)
        (fst (getRandomMapTiles util (placedTiles s) (TotalTowns config - townsGenerated s)
               TileType_Land (rand s)))
        \<lparr>scanTiles = placedTiles s, scanGenerated = townsGenerated s, newTownThisIteration = False\<rparr>)"
  "townsGenerated (placeRound util config s) =
     scanGenerated (placeSeeds (townExclusionZoneRadius s)
        (fst (getRandomMapTiles util (placedTiles s) (TotalTowns config - townsGenerated s)
               TileType_Land (rand s)))
        \<lparr>scanTiles = placedTiles s, scanGenerated = townsGenerated s, newTownThisIteration = False\<rparr>)"
  "logged (placeRound util config s) = logged s"
  by (simp_all add: placeRound_def Let_def)

lemma placeRound_progress:
  "townsGenerated s \<le> townsGenerated (placeRound util config s)"
  "townsGenerated s < townsGenerated (placeRound util config s) \<Longrightarrow>
     townExclusionZoneRetries s \<noteq> 3 \<Longrightarrow>
     townExclusionZoneRadius (placeRound util config s) = townExclusionZoneRadius s
     \<and> townExclusionZoneRetries (placeRound util config s) = townExclusionZoneRetries s"
  "townsGenerated (placeRound util config s) = townsGenerated s \<Longrightarrow>
     townExclusionZoneRadius (placeRound util config s) =
       (if townExclusionZoneRetries s + 1 = 3 then townExclusionZoneRadius s - 1
        else townExclusionZoneRadius s)
     \<and> townExclusionZoneRetries (placeRound util config s) =
       (if townExclusionZoneRetries s + 1 = 3 then 0 else townExclusionZoneRetries s + 1)"
proof -
  let ?cs = "fst (getRandomMapTiles util (placedTiles s) (TotalTowns config - townsGenerated s)
               TileType_Land (rand s))"
  let ?sc = "\<lparr>scanTiles = placedTiles s, scanGenerated = townsGenerated s,
              newTownThisIteration = False\<rparr>"
  from placeSeeds_generated [of ?sc "townExclusionZoneRadius s" ?cs]
  have g: "townsGenerated s \<le> scanGenerated (placeSeeds (townExclusionZoneRadius s) ?cs ?sc)"
    and n: "newTownThisIteration (placeSeeds (townExclusionZoneRadius s) ?cs ?sc)
            \<longleftrightarrow> townsGenerated s < scanGenerated (placeSeeds (townExclusionZoneRadius s) ?cs ?sc)"
    by simp_all
  show "townsGenerated s \<le> townsGenerated (placeRound util config s)"
    using g by (simp add: placeRound_fields)
  show "townsGenerated s < townsGenerated (placeRound util config s) \<Longrightarrow>
     townExclusionZoneRetries s \<noteq> 3 \<Longrightarrow>
     townExclusionZoneRadius (placeRound util config s) = townExclusionZoneRadius s
     \<and> townExclusionZoneRetries (placeRound util config s) = townExclusionZoneRetries s"
    using n by (simp add: placeRound_def Let_def)
  show "townsGenerated (placeRound util config s) = townsGenerated s \<Longrightarrow>
     townExclusionZoneRadius (placeRound util config s) =
       (if townExclusionZoneRetries s + 1 = 3 then townExclusionZoneRadius s - 1
        else townExclusionZoneRadius s)
     \<and> townExclusionZoneRetries (placeRound util config s) =
       (if townExclusionZoneRetries s + 1 = 3 then 0 else townExclusionZoneRetries s + 1)"
    using n by (simp add: placeRound_def Let_def)
qed

lemma placeRound_towns_grow:
  "typedCoords TileType_Town (placedTiles s)
     \<subseteq> typedCoords TileType_Town (placedTiles (placeRound util config s))"
  using placeSeeds_towns_grow
    [of "\<lparr>scanTiles = placedTiles s, scanGenerated = townsGenerated s, newTownThisIteration = False\<rparr>"]
  by (simp add: placeRound_fields)

lemma placeRound_spaced:
  assumes "spaced (townExclusionZoneRadius s) (placedTiles s)"
  shows "spaced (townExclusionZoneRadius s) (placedTiles (placeRound util config s))"
  using placeSeeds_spaced
    [of "townExclusionZoneRadius s"
        "\<lparr>scanTiles = placedTiles s, scanGenerated = townsGenerated s, newTownThisIteration = False\<rparr>"]
    assms
  by (simp add: placeRound_fields)

lemma placeRound_radius_le:
  "townExclusionZoneRadius (placeRound util config s) \<le> townExclusionZoneRadius s"
  by (simp add: placeRound_def Let_def)

lemma placeRound_promoted:
  assumes "samplerContract util"
  shows "promoted (placedTiles s) (placedTiles (placeRound util config s))"
proof -
  let ?cs = "fst (getRandomMapTiles util (placedTiles s) (TotalTowns config - townsGenerated s)
               TileType_Land (rand s))"
  let ?sc = "\<lparr>scanTiles = placedTiles s, scanGenerated = townsGenerated s,
              newTownThisIteration = False\<rparr>"
  have "set ?cs \<subseteq> typedCoords TileType_Land (scanTiles ?sc)"
    using assms by (simp add: samplerContract_def)
  from placeSeeds_promoted [OF this, of "townExclusionZoneRadius s"]
  show ?thesis by (simp add: placeRound_fields)
qed

lemma placeRound_count:
  assumes "samplerContract util" and "finite (typedCoords TileType_Land (placedTiles s))"
  shows "finite (typedCoords TileType_Land (placedTiles (placeRound util config s)))
       \<and> int (card (typedCoords TileType_Land (placedTiles (placeRound util config s))))
           + townsGenerated (placeRound util config s)
         = int (card (typedCoords TileType_Land (placedTiles s))) + townsGenerated s"
proof -
  let ?cs = "fst (getRandomMapTiles util (placedTiles s) (TotalTowns config - townsGenerated s)
               TileType_Land (rand s))"
  let ?sc = "\<lparr>scanTiles = placedTiles s, scanGenerated = townsGenerated s,
              newTownThisIteration = False\<rparr>"
  have 1: "finite (typedCoords TileType_Land (scanTiles ?sc))" using assms(2) by simp
  have 2: "distinct ?cs" using assms(1) by (simp add: samplerContract_def)
  have 3: "set ?cs \<subseteq> typedCoords TileType_Land (scanTiles ?sc)"
    using assms(1) by (simp add: samplerContract_def)
  from placeSeeds_count [OF 1 2 3, of "townExclusionZoneRadius s"]
  show ?thesis by (simp add: placeRound_fields)
qed

section \<open>The grid after the removal of unvisited land\<close>

lemma tileAt_removeUnvisited:
  "tileAt (removeUnvisited vis tiles) c = map_option (removeIfUnvisited vis) (tileAt tiles c)"
  by (auto simp: tileAt_def removeUnvisited_def split: option.splits)

lemma initialTile_fields:
  "Position (initialTile util config seed waterLevel x z) = Axial x z"
  "Type (initialTile util config seed waterLevel x z) =
     (if heightAt util config seed (Axial x z) \<le> waterLevel then TileType_Water else TileType_Land)"
  "Biome (initialTile util config seed waterLevel x z) =
     (if GenerateBiomes config = Some True
      then getTileBiome (calculateDecayingNoise util) seed (Radius config) waterLevel (Axial x z)
      else Biome_Grassland)"
  by (simp_all add: initialTile_def heightAt_def Let_def)

lemma getTileBiome_Water_iff:
  "getTileBiome noise seed radius waterLevel axial = Biome_Water
     \<longleftrightarrow> noise axial seed radius \<le> waterLevel"
  by (simp add: getTileBiome_def tileHasWater_def Let_def)

lemma filteredTiles_SomeD:
  assumes "filteredTiles util config = Some ft"
  obtains vis where "floodFill util config (seedOf util config) (waterLevelOf config) = Some vis"
    and "ft = removeUnvisited vis
                (createInitialMap util config (seedOf util config) (waterLevelOf config))"
  using assms by (auto simp: filteredTiles_def)

lemma filtered_tileAt:
  "tileAt (removeUnvisited vis (createInitialMap util config seed waterLevel)) c =
     (if cubeDistance c \<le> Radius config
      then Some (removeIfUnvisited vis (initialTile util config seed waterLevel (X c) (Z c)))
      else None)"
  by (simp add: tileAt_removeUnvisited tileAt_createInitialMap)

lemma removeIfUnvisited_initial:
  "removeIfUnvisited vis (initialTile util config seed waterLevel (X c) (Z c)) =
     (if heightAt util config seed c > waterLevel \<and> vis c \<noteq> Some True
      then (initialTile util config seed waterLevel (X c) (Z c))
             \<lparr>Type := TileType_Water, Biome := Biome_Water\<rparr>
      else initialTile util config seed waterLevel (X c) (Z c))"
proof -
  have p: "Position (initialTile util config seed waterLevel (X c) (Z c)) = c"
    by (simp add: initialTile_fields)
  have t: "Type (initialTile util config seed waterLevel (X c) (Z c)) =
     (if heightAt util config seed c \<le> waterLevel then TileType_Water else TileType_Land)"
    by (simp add: initialTile_fields)
  show ?thesis
    unfolding removeIfUnvisited_def p t
    by (cases "vis c") (auto split: bool.splits)
qed

lemma filtered_type:
  assumes ft: "tileAt (removeUnvisited vis (createInitialMap util config seed waterLevel)) c = Some t"
  shows "Type t = (if heightAt util config seed c > waterLevel \<and> vis c = Some True
                   then TileType_Land else TileType_Water)"
    and "Position t = c"
proof -
  from ft have t: "t = removeIfUnvisited vis (initialTile util config seed waterLevel (X c) (Z c))"
    by (simp add: filtered_tileAt split: if_splits)
  show "Type t = (if heightAt util config seed c > waterLevel \<and> vis c = Some True
                   then TileType_Land else TileType_Water)"
    unfolding t removeIfUnvisited_initial by (simp add: initialTile_fields)
  show "Position t = c"
    unfolding t removeIfUnvisited_initial by (simp add: initialTile_fields)
qed

lemma finite_tileCoords_filtered:
  "finite (tileCoords (removeUnvisited vis (createInitialMap util config seed waterLevel)))"
proof -
  have "tileCoords (removeUnvisited vis (createInitialMap util config seed waterLevel))
        \<subseteq> hexBall (Radius config)"
    by (auto simp: tileCoords_def hexBall_def filtered_tileAt split: if_splits)
  then show ?thesis by (rule finite_subset) (rule finite_hexBall)
qed

lemma no_towns_filtered:
  "typedCoords TileType_Town (removeUnvisited vis (createInitialMap util config seed waterLevel)) = {}"
  by (auto simp: typedCoords_def dest: filtered_type(1) split: if_splits)

lemma reachable_traversable:
  assumes fl: "floodFill util config seed waterLevel = Some vis"
    and r: "reachable (heightAt util config seed) waterLevel c"
  shows "traversable (removeUnvisited vis (createInitialMap util config seed waterLevel)) c"
  using r
proof (induction rule: reachable.induct)
  case reachable_origin
  show ?case by (rule traversable_origin)
next
  case (reachable_step c n)
  have rn: "reachable (heightAt util config seed) waterLevel n"
    by (rule reachable.reachable_step [OF reachable_step.hyps])
  then have "vis n = Some True" using floodFill_visited [OF fl] by simp
  then have "\<not> waterTile (removeUnvisited vis (createInitialMap util config seed waterLevel)) n"
    using reachable_step.hyps(3)
    by (auto simp: waterTile_def dest: filtered_type(1) split: option.splits)
  with reachable_step.IH reachable_step.hyps(2) show ?case
    by (rule traversable_step)
qed

lemmas flood_run = floodFill_def floodStart_def floodStep_def getNearbyCoordinates_1 ring1_def
  exampleUtil_def exampleConfig_def seedOf_def waterLevelOf_def floodLoop.simps

section \<open>The flood fill and the height of the origin\<close>






section \<open>Runs of the whole function\<close>

lemma placeTowns_promoted:
  assumes c: "samplerContract util" and run: "placeTowns util config st = Some r"
  shows "promoted (placedTiles st) (placedTiles r)"
proof -
  let ?I = "\<lambda>s. promoted (placedTiles st) (placedTiles s)"
  have step: "?I (placeRound util config s)" if "?I s" for s
    using that placeRound_promoted [OF c, of s config] by (rule promoted_trans)
  from placeTowns_invariant [where I = ?I, OF run promoted_refl]
  have "(?I r \<and> \<not> townsGenerated r < TotalTowns config)
       \<or> (\<exists>s. ?I s \<and> townsGenerated s < TotalTowns config
              \<and> townExclusionZoneRadius (placeRound util config s) = - 1
              \<and> r = warnFailed config (placeRound util config s))"
    using step by (simp add: printTowns_def)
  then show ?thesis
  proof
    assume "?I r \<and> \<not> townsGenerated r < TotalTowns config"
    then show ?thesis by simp
  next
    assume "\<exists>s. ?I s \<and> townsGenerated s < TotalTowns config
              \<and> townExclusionZoneRadius (placeRound util config s) = - 1
              \<and> r = warnFailed config (placeRound util config s)"
    then obtain s where "?I s" "r = warnFailed config (placeRound util config s)" by blast
    with step [of s] show ?thesis by (simp add: warnFailed_def)
  qed
qed

lemma resolveConfig_fields:
  "Seed (resolveConfig util config) = Some (seedOf util config)"
  "WaterLevel (resolveConfig util config) = Some (waterLevelOf config)"
  "Radius (resolveConfig util config) = Radius config"
  "DepthScale (resolveConfig util config) = DepthScale config"
  "TotalTowns (resolveConfig util config) = TotalTowns config"
  "GenerateBiomes (resolveConfig util config) = GenerateBiomes config"
  "Debug (resolveConfig util config) = Debug config"
  by (cases "Seed config"; cases "WaterLevel config";
      simp add: resolveConfig_def seedOf_def waterLevelOf_def)+

lemma BuildMapDefinition_SomeD:
  assumes "BuildMapDefinition util config = Some res"
  obtains ft st where "filteredTiles util config = Some ft"
    and "placeTowns util config (placementStart util config ft) = Some st"
    and "res = \<lparr>configAfter = resolveConfig util config,
                 returned = \<lparr>Config = resolveConfig util config, Tiles = placedTiles st\<rparr>,
                 printed = logged st\<rparr>"
  using assms by (auto simp: BuildMapDefinition_def split: option.splits)

lemma returned_promoted:
  assumes c: "samplerContract util"
    and b: "BuildMapDefinition util config = Some res"
    and f: "filteredTiles util config = Some ft"
  shows "promoted ft (Tiles (returned res))"
proof -
  from b obtain ft' st where 1: "filteredTiles util config = Some ft'"
    and 2: "placeTowns util config (placementStart util config ft') = Some st"
    and 3: "res = \<lparr>configAfter = resolveConfig util config,
                 returned = \<lparr>Config = resolveConfig util config, Tiles = placedTiles st\<rparr>,
                 printed = logged st\<rparr>"
    by (rule BuildMapDefinition_SomeD)
  from 1 f have "ft' = ft" by simp
  with placeTowns_promoted [OF c 2] 3 show ?thesis by (simp add: placementStart_def)
qed

lemma exampleUtil_contract: "samplerContract (exampleUtil listed there elsewhere offered)"
  by (auto simp: samplerContract_def exampleUtil_def typedCoords_def split: option.splits)

lemma getNearbyCoordinates_0: "getNearbyCoordinates c 0 = [c]"
  by (simp add: getNearbyCoordinates_def)


lemmas town_run = BuildMapDefinition_def filteredTiles_def placementStart_def placeTowns.simps
  placeRound_def printTowns_def warnFailed_def canBeTown_iff typedCoords_def tileAt_setTown
  filtered_tileAt removeIfUnvisited_def initialTile_def cubeDistance_def getNearbyCoordinates_0

lemma filtered_biome:
  assumes t: "tileAt (removeUnvisited vis (createInitialMap util config seed waterLevel)) c = Some t"
  shows "(Type t = TileType_Land \<longrightarrow> Biome t \<noteq> Biome_Water)
       \<and> (GenerateBiomes config = Some True \<longrightarrow> Type t = TileType_Water \<longrightarrow> Biome t = Biome_Water)
       \<and> (GenerateBiomes config \<noteq> Some True \<longrightarrow> heightAt util config seed c \<le> waterLevel \<longrightarrow>
            Type t = TileType_Water \<and> Biome t = Biome_Grassland)"
proof -
  from t have t': "t = removeIfUnvisited vis (initialTile util config seed waterLevel (X c) (Z c))"
    by (simp add: filtered_tileAt split: if_splits)
  have h: "calculateDecayingNoise util c seed (Radius config) = heightAt util config seed c"
    by (simp add: heightAt_def)
  show ?thesis
    unfolding t' removeIfUnvisited_initial
    by (simp add: initialTile_fields getTileBiome_Water_iff h)
qed

lemma tileCoords_filtered_negative:
  assumes "Radius config < 0"
  shows "tileCoords (removeUnvisited vis (createInitialMap util config seed waterLevel)) = {}"
proof -
  have "\<not> cubeDistance c \<le> Radius config" for c
  proof -
    have "0 \<le> cubeDistance c" by (simp add: cubeDistance_def)
    with assms show ?thesis by linarith
  qed
  then show ?thesis by (simp add: tileCoords_def filtered_tileAt)
qed

section \<open>The town loop under the sampler contract\<close>

lemma promoted_coords:
  assumes p: "promoted tiles0 tiles" and nt: "typedCoords TileType_Town tiles0 = {}"
  shows "typedCoords TileType_Land tiles \<subseteq> typedCoords TileType_Land tiles0"
    and "typedCoords TileType_Town tiles
           = typedCoords TileType_Land tiles0 - typedCoords TileType_Land tiles"
    and "tileCoords tiles = tileCoords tiles0"
proof -
  have alt: "tileAt tiles c = tileAt tiles0 c
        \<or> (\<exists>t. tileAt tiles0 c = Some t \<and> Type t = TileType_Land
                \<and> tileAt tiles c = Some (t\<lparr>Type := TileType_Town\<rparr>))" for c
    using p by (simp add: promoted_def)
  have notown: "Type t \<noteq> TileType_Town" if "tileAt tiles0 c = Some t" for c t
    using nt that by (auto simp: typedCoords_def)
  show "typedCoords TileType_Land tiles \<subseteq> typedCoords TileType_Land tiles0"
  proof
    fix c assume "c \<in> typedCoords TileType_Land tiles"
    then obtain t where "tileAt tiles c = Some t" "Type t = TileType_Land"
      by (auto simp: typedCoords_def)
    from alt [of c] show "c \<in> typedCoords TileType_Land tiles0"
    proof
      assume "tileAt tiles c = tileAt tiles0 c"
      with \<open>tileAt tiles c = Some t\<close> have "tileAt tiles0 c = Some t" by simp
      with \<open>Type t = TileType_Land\<close> show ?thesis unfolding typedCoords_def by blast
    next
      assume "\<exists>t. tileAt tiles0 c = Some t \<and> Type t = TileType_Land
                \<and> tileAt tiles c = Some (t\<lparr>Type := TileType_Town\<rparr>)"
      then show ?thesis unfolding typedCoords_def by blast
    qed
  qed
  show "typedCoords TileType_Town tiles
           = typedCoords TileType_Land tiles0 - typedCoords TileType_Land tiles"
  proof (rule set_eqI)
    fix c
    show "c \<in> typedCoords TileType_Town tiles
          \<longleftrightarrow> c \<in> typedCoords TileType_Land tiles0 - typedCoords TileType_Land tiles"
    proof
      assume "c \<in> typedCoords TileType_Town tiles"
      then obtain t where t: "tileAt tiles c = Some t" "Type t = TileType_Town"
        by (auto simp: typedCoords_def)
      from alt [of c] show "c \<in> typedCoords TileType_Land tiles0 - typedCoords TileType_Land tiles"
      proof
        assume "tileAt tiles c = tileAt tiles0 c"
        with t notown [of c t] show ?thesis by simp
      next
        assume "\<exists>t. tileAt tiles0 c = Some t \<and> Type t = TileType_Land
                \<and> tileAt tiles c = Some (t\<lparr>Type := TileType_Town\<rparr>)"
        with t show ?thesis by (auto simp: typedCoords_def)
      qed
    next
      assume a: "c \<in> typedCoords TileType_Land tiles0 - typedCoords TileType_Land tiles"
      then obtain t0 where t0: "tileAt tiles0 c = Some t0" "Type t0 = TileType_Land"
        by (auto simp: typedCoords_def)
      from alt [of c] show "c \<in> typedCoords TileType_Town tiles"
      proof
        assume "tileAt tiles c = tileAt tiles0 c"
        with t0 a show ?thesis by (auto simp: typedCoords_def)
      next
        assume "\<exists>t. tileAt tiles0 c = Some t \<and> Type t = TileType_Land
                \<and> tileAt tiles c = Some (t\<lparr>Type := TileType_Town\<rparr>)"
        then show ?thesis by (auto simp: typedCoords_def)
      qed
    qed
  qed
  show "tileCoords tiles = tileCoords tiles0"
  proof (rule set_eqI)
    fix c
    show "c \<in> tileCoords tiles \<longleftrightarrow> c \<in> tileCoords tiles0"
      unfolding tileCoords_def mem_Collect_eq using alt [of c]
      by (elim disjE exE conjE) simp_all
  qed
qed

lemma finite_typedCoords_filtered:
  "finite (typedCoords ty (removeUnvisited vis (createInitialMap util config seed waterLevel)))"
proof -
  have "typedCoords ty (removeUnvisited vis (createInitialMap util config seed waterLevel))
        \<subseteq> tileCoords (removeUnvisited vis (createInitialMap util config seed waterLevel))"
    by (auto simp: typedCoords_def tileCoords_def)
  then show ?thesis by (rule finite_subset) (rule finite_tileCoords_filtered)
qed

lemma placeInv_round:
  assumes sc: "samplerContract util" and inv: "placeInv ft s"
  shows "finite (typedCoords TileType_Land (placedTiles (placeRound util config s)))"
    and "int (card (typedCoords TileType_Land (placedTiles (placeRound util config s))))
           + townsGenerated (placeRound util config s)
         = int (card (typedCoords TileType_Land ft))"
    and "promoted ft (placedTiles (placeRound util config s))"
    and "- 1 \<le> townExclusionZoneRadius (placeRound util config s)"
    and "0 \<le> townExclusionZoneRetries (placeRound util config s)"
    and "townExclusionZoneRetries (placeRound util config s) \<le> 2"
proof -
  from inv have fin: "finite (typedCoords TileType_Land (placedTiles s))"
    and cnt: "int (card (typedCoords TileType_Land (placedTiles s))) + townsGenerated s
         = int (card (typedCoords TileType_Land ft))"
    and pr: "promoted ft (placedTiles s)"
    and r: "0 \<le> townExclusionZoneRadius s"
    and k: "0 \<le> townExclusionZoneRetries s" "townExclusionZoneRetries s \<le> 2"
    by (simp_all add: placeInv_def)
  from placeRound_count [OF sc fin, of config] cnt
  show "finite (typedCoords TileType_Land (placedTiles (placeRound util config s)))"
    and "int (card (typedCoords TileType_Land (placedTiles (placeRound util config s))))
           + townsGenerated (placeRound util config s)
         = int (card (typedCoords TileType_Land ft))"
    by simp_all
  show "promoted ft (placedTiles (placeRound util config s))"
    using pr placeRound_promoted [OF sc, of s config] by (rule promoted_trans)
  have "townsGenerated s < townsGenerated (placeRound util config s)
        \<or> townsGenerated (placeRound util config s) = townsGenerated s"
    using placeRound_progress(1) [of s util config] by linarith
  then have "- 1 \<le> townExclusionZoneRadius (placeRound util config s)
      \<and> 0 \<le> townExclusionZoneRetries (placeRound util config s)
      \<and> townExclusionZoneRetries (placeRound util config s) \<le> 2"
  proof
    assume "townsGenerated s < townsGenerated (placeRound util config s)"
    from placeRound_progress(2) [OF this] r k show ?thesis by simp
  next
    assume "townsGenerated (placeRound util config s) = townsGenerated s"
    from placeRound_progress(3) [OF this] r k show ?thesis by (simp split: if_splits)
  qed
  then show "- 1 \<le> townExclusionZoneRadius (placeRound util config s)"
    and "0 \<le> townExclusionZoneRetries (placeRound util config s)"
    and "townExclusionZoneRetries (placeRound util config s) \<le> 2"
    by simp_all
qed

lemma placeInv_step:
  assumes sc: "samplerContract util" and inv: "placeInv ft s"
    and more: "townsGenerated s < TotalTowns config"
    and go: "townExclusionZoneRadius (placeRound util config s) \<noteq> - 1"
  shows "placeInv ft (printTowns config (placeRound util config s))
       \<and> placeMeasure config (printTowns config (placeRound util config s)) < placeMeasure config s"
proof -
  note rd = placeInv_round [OF sc inv, of config]
  from inv have r: "0 \<le> townExclusionZoneRadius s"
    and k: "0 \<le> townExclusionZoneRetries s" "townExclusionZoneRetries s \<le> 2"
    by (simp_all add: placeInv_def)
  have a: "placeInv ft (printTowns config (placeRound util config s))"
    using rd go by (simp add: placeInv_def printTowns_def)
  have "townsGenerated s < townsGenerated (placeRound util config s)
        \<or> townsGenerated (placeRound util config s) = townsGenerated s"
    using placeRound_progress(1) [of s util config] by linarith
  then have "placeMeasure config (placeRound util config s) < placeMeasure config s"
  proof
    assume g: "townsGenerated s < townsGenerated (placeRound util config s)"
    from placeRound_progress(2) [OF g] k
    have "townExclusionZoneRadius (placeRound util config s) = townExclusionZoneRadius s"
      and "townExclusionZoneRetries (placeRound util config s) = townExclusionZoneRetries s"
      by simp_all
    with g more show ?thesis by (simp add: placeMeasure_def)
  next
    assume g: "townsGenerated (placeRound util config s) = townsGenerated s"
    from placeRound_progress(3) [OF g] r k g show ?thesis
      by (simp add: placeMeasure_def split: if_splits)
  qed
  then have b: "placeMeasure config (printTowns config (placeRound util config s))
                < placeMeasure config s"
    by (simp add: placeMeasure_def printTowns_def)
  from a b show ?thesis by blast
qed

lemma negative_radius_never_returns:
  assumes sc: "samplerContract util"
    and rad: "Radius config \<le> - 2"
    and towns: "1 \<le> TotalTowns config"
  shows "BuildMapDefinition util config = None"
proof (cases "filteredTiles util config")
  case None
  then show ?thesis by (simp add: BuildMapDefinition_def)
next
  case (Some ft)
  then obtain vis where ft': "ft = removeUnvisited vis
        (createInitialMap util config (seedOf util config) (waterLevelOf config))"
    by (rule filteredTiles_SomeD)
  have empty: "tileCoords ft = {}"
    unfolding ft' using rad by (intro tileCoords_filtered_negative) simp
  let ?I = "\<lambda>s :: 'a Placement. tileCoords (placedTiles s) = {} \<and> townsGenerated s = 0
                \<and> townExclusionZoneRadius s \<le> - 2"
  have round: "?I (placeRound util config s)" if "?I s" for s
  proof -
    let ?cs = "fst (getRandomMapTiles util (placedTiles s) (TotalTowns config - townsGenerated s)
               TileType_Land (rand s))"
    have "set ?cs \<subseteq> typedCoords TileType_Land (placedTiles s)"
      using sc by (simp add: samplerContract_def)
    also have "\<dots> \<subseteq> tileCoords (placedTiles s)"
      by (auto simp: typedCoords_def tileCoords_def)
    finally have "?cs = []" using that by simp
    then have "placedTiles (placeRound util config s) = placedTiles s"
      and "townsGenerated (placeRound util config s) = townsGenerated s"
      by (simp_all add: placeRound_fields)
    with that placeRound_radius_le [of util config s] show ?thesis by simp
  qed
  have start: "?I (placementStart util config ft)"
    using empty rad by (simp add: placementStart_def)
  have "placeTowns util config (placementStart util config ft) = None"
  proof (rule ccontr)
    assume "placeTowns util config (placementStart util config ft) \<noteq> None"
    then obtain st where run: "placeTowns util config (placementStart util config ft) = Some st"
      by auto
    have step: "?I (printTowns config (placeRound util config s))" if "?I s" for s
      using round [OF that] by (simp add: printTowns_def)
    from placeTowns_invariant [where I = ?I, OF run start step]
    have "(?I st \<and> \<not> townsGenerated st < TotalTowns config)
       \<or> (\<exists>s. ?I s \<and> townsGenerated s < TotalTowns config
              \<and> townExclusionZoneRadius (placeRound util config s) = - 1
              \<and> st = warnFailed config (placeRound util config s))"
      by simp
    then show False
    proof
      assume "?I st \<and> \<not> townsGenerated st < TotalTowns config"
      with towns show False by simp
    next
      assume "\<exists>s. ?I s \<and> townsGenerated s < TotalTowns config
              \<and> townExclusionZoneRadius (placeRound util config s) = - 1
              \<and> st = warnFailed config (placeRound util config s)"
      then obtain s where "?I s" "townExclusionZoneRadius (placeRound util config s) = - 1"
        by blast
      with round [of s] show False by simp
    qed
  qed
  with Some show ?thesis by (simp add: BuildMapDefinition_def)
qed

lemma placeRound_tileCoords:
  "tileCoords (placedTiles (placeRound util config s)) = tileCoords (placedTiles s)"
proof (rule set_eqI)
  fix c
  let ?cs = "fst (getRandomMapTiles util (placedTiles s) (TotalTowns config - townsGenerated s)
               TileType_Land (rand s))"
  let ?sc = "\<lparr>scanTiles = placedTiles s, scanGenerated = townsGenerated s,
              newTownThisIteration = False\<rparr>"
  from placeSeeds_tiles [of "townExclusionZoneRadius s" ?cs ?sc c]
  show "c \<in> tileCoords (placedTiles (placeRound util config s)) \<longleftrightarrow> c \<in> tileCoords (placedTiles s)"
    unfolding tileCoords_def mem_Collect_eq placeRound_fields
    by (elim disjE conjE) simp_all
qed

lemma canBeTown_distance:
  "canBeTown tiles (getNearbyCoordinates tile r) \<longleftrightarrow>
     \<not> (\<exists>n \<in> typedCoords TileType_Town tiles.
            cubeDistanceBetween tile n \<le> r \<and> \<not> (0 < r \<and> n = tile))"
  by (auto simp: canBeTown_iff set_getNearbyCoordinates)

lemma placeTowns_towns_spaced:
  assumes run: "placeTowns util config s = Some st"
  shows "typedCoords TileType_Town (placedTiles s) \<subseteq> typedCoords TileType_Town (placedTiles st)"
    and "spaced (townExclusionZoneRadius s) (placedTiles s) \<Longrightarrow>
         spaced (townExclusionZoneRadius st) (placedTiles st)"
proof -
  let ?I = "\<lambda>x. typedCoords TileType_Town (placedTiles s) \<subseteq> typedCoords TileType_Town (placedTiles x)
              \<and> (spaced (townExclusionZoneRadius s) (placedTiles s) \<longrightarrow>
                    spaced (townExclusionZoneRadius x) (placedTiles x))"
  have round: "?I (placeRound util config x)" if "?I x" for x
  proof -
    have "spaced (townExclusionZoneRadius (placeRound util config x))
            (placedTiles (placeRound util config x))"
      if "spaced (townExclusionZoneRadius x) (placedTiles x)"
      using placeRound_spaced [OF that, of util config] placeRound_radius_le [of util config x]
      by (rule_tac spaced_mono)
    with that placeRound_towns_grow [of x util config] show ?thesis by blast
  qed
  have init: "?I s" by simp
  have step: "?I (printTowns config (placeRound util config x))" if "?I x" for x
    using round [OF that] by (simp add: printTowns_def)
  from placeTowns_invariant [where I = ?I, OF run init step]
  have "(?I st \<and> \<not> townsGenerated st < TotalTowns config)
       \<or> (\<exists>x. ?I x \<and> townsGenerated x < TotalTowns config
              \<and> townExclusionZoneRadius (placeRound util config x) = - 1
              \<and> st = warnFailed config (placeRound util config x))"
    by simp
  then have "?I st"
  proof
    assume "?I st \<and> \<not> townsGenerated st < TotalTowns config"
    then show ?thesis by simp
  next
    assume "\<exists>x. ?I x \<and> townsGenerated x < TotalTowns config
              \<and> townExclusionZoneRadius (placeRound util config x) = - 1
              \<and> st = warnFailed config (placeRound util config x)"
    then obtain x where "?I x" "st = warnFailed config (placeRound util config x)" by blast
    with round [of x] show ?thesis by (simp add: warnFailed_def)
  qed
  then show "typedCoords TileType_Town (placedTiles s) \<subseteq> typedCoords TileType_Town (placedTiles st)"
    and "spaced (townExclusionZoneRadius s) (placedTiles s) \<Longrightarrow>
         spaced (townExclusionZoneRadius st) (placedTiles st)"
    by simp_all
qed

lemma tileCoords_createInitialMap:
  "tileCoords (createInitialMap util config seed waterLevel) = hexBall (Radius config)"
  by (auto simp: tileCoords_def hexBall_def tileAt_createInitialMap)

lemma no_towns_initial:
  "typedCoords TileType_Town (createInitialMap util config seed waterLevel) = {}"
  by (auto simp: typedCoords_def tileAt_createInitialMap initialTile_fields split: if_splits)

lemma under_placement_nonnegative:
  assumes sc: "samplerContract util"
    and r0: "0 \<le> Radius config"
    and ft: "filteredTiles util config = Some ft"
    and few: "int (card (typedCoords TileType_Land ft)) < TotalTowns config"
  shows "\<exists>st. placeTowns util config (placementStart util config ft) = Some st
            \<and> townExclusionZoneRadius st = - 1
            \<and> townsGenerated st < TotalTowns config
            \<and> townsGenerated st = int (card (typedCoords TileType_Town (placedTiles st)))
            \<and> tileCoords (placedTiles st) = tileCoords ft
            \<and> last (logged st) = Warn_Failed (TotalTowns config) (townsGenerated st)
            \<and> BuildMapDefinition util config =
                Some \<lparr>configAfter = resolveConfig util config,
                      returned = \<lparr>Config = resolveConfig util config, Tiles = placedTiles st\<rparr>,
                      printed = logged st\<rparr>"
proof -
  let ?st0 = "placementStart util config ft"
  from ft obtain vis where ft': "ft = removeUnvisited vis
        (createInitialMap util config (seedOf util config) (waterLevelOf config))"
    by (rule filteredTiles_SomeD)
  have fin0: "finite (typedCoords TileType_Land ft)"
    unfolding ft' by (rule finite_typedCoords_filtered)
  have nt0: "typedCoords TileType_Town ft = {}"
    unfolding ft' by (rule no_towns_filtered)
  have inv0: "placeInv ft ?st0"
    using fin0 r0 by (simp add: placeInv_def placementStart_def promoted_refl)
  have "\<exists>st. placeTowns util config ?st0 = Some st"
    by (rule placeTowns_terminates [where I = "placeInv ft" and m = "placeMeasure config", OF inv0])
       (rule placeInv_step [OF sc])
  then obtain st where run: "placeTowns util config ?st0 = Some st" by blast
  have step: "placeInv ft (printTowns config (placeRound util config s))"
    if "placeInv ft s" "townsGenerated s < TotalTowns config"
      "townExclusionZoneRadius (placeRound util config s) \<noteq> - 1" for s
    using placeInv_step [OF sc that] by simp
  from placeTowns_invariant [where I = "placeInv ft", OF run inv0 step]
  have "(placeInv ft st \<and> \<not> townsGenerated st < TotalTowns config)
       \<or> (\<exists>s. placeInv ft s \<and> townsGenerated s < TotalTowns config
              \<and> townExclusionZoneRadius (placeRound util config s) = - 1
              \<and> st = warnFailed config (placeRound util config s))" .
  then obtain s where s: "placeInv ft s"
    and rad: "townExclusionZoneRadius (placeRound util config s) = - 1"
    and st: "st = warnFailed config (placeRound util config s)"
  proof
    assume "placeInv ft st \<and> \<not> townsGenerated st < TotalTowns config"
    then have "int (card (typedCoords TileType_Land (placedTiles st))) + townsGenerated st
               = int (card (typedCoords TileType_Land ft))"
      and "\<not> townsGenerated st < TotalTowns config"
      by (simp_all add: placeInv_def)
    with few have False by linarith
    then show ?thesis ..
  next
    assume "\<exists>s. placeInv ft s \<and> townsGenerated s < TotalTowns config
              \<and> townExclusionZoneRadius (placeRound util config s) = - 1
              \<and> st = warnFailed config (placeRound util config s)"
    then show ?thesis using that by blast
  qed
  let ?r = "placeRound util config s"
  note rd = placeInv_round [OF sc s, of config]
  have tiles: "placedTiles st = placedTiles ?r" and gen: "townsGenerated st = townsGenerated ?r"
    and radius: "townExclusionZoneRadius st = - 1"
    and lg: "last (logged st) = Warn_Failed (TotalTowns config) (townsGenerated st)"
    unfolding st using rad by (simp_all add: warnFailed_def)
  have lt: "townsGenerated st < TotalTowns config"
    unfolding gen using rd(2) few by linarith
  from promoted_coords [OF rd(3) nt0]
  have sub: "typedCoords TileType_Land (placedTiles ?r) \<subseteq> typedCoords TileType_Land ft"
    and tw: "typedCoords TileType_Town (placedTiles ?r)
             = typedCoords TileType_Land ft - typedCoords TileType_Land (placedTiles ?r)"
    and tc: "tileCoords (placedTiles ?r) = tileCoords ft"
    by simp_all
  have "card (typedCoords TileType_Town (placedTiles ?r))
        = card (typedCoords TileType_Land ft) - card (typedCoords TileType_Land (placedTiles ?r))"
    unfolding tw by (rule card_Diff_subset [OF rd(1) sub])
  moreover have "card (typedCoords TileType_Land (placedTiles ?r)) \<le> card (typedCoords TileType_Land ft)"
    by (rule card_mono [OF fin0 sub])
  ultimately have "townsGenerated ?r = int (card (typedCoords TileType_Town (placedTiles ?r)))"
    using rd(2) by linarith
  then have cnt: "townsGenerated st = int (card (typedCoords TileType_Town (placedTiles st)))"
    by (simp add: gen tiles)
  have tc': "tileCoords (placedTiles st) = tileCoords ft" by (simp add: tiles tc)
  have b: "BuildMapDefinition util config =
                Some \<lparr>configAfter = resolveConfig util config,
                      returned = \<lparr>Config = resolveConfig util config, Tiles = placedTiles st\<rparr>,
                      printed = logged st\<rparr>"
    using ft run by (simp add: BuildMapDefinition_def)
  from run radius lt cnt tc' lg b show ?thesis by blast
qed

lemma placeRound_empty_grid:
  assumes sc: "samplerContract util" and empty: "tileCoords (placedTiles s) = {}"
  shows "placeRound util config s =
           s\<lparr>placedTiles := placedTiles s,
             rand := snd (getRandomMapTiles util (placedTiles s)
                            (TotalTowns config - townsGenerated s) TileType_Land (rand s)),
             townsGenerated := townsGenerated s,
             townExclusionZoneRadius :=
               (if townExclusionZoneRetries s + 1 = 3 then townExclusionZoneRadius s - 1
                else townExclusionZoneRadius s),
             townExclusionZoneRetries :=
               (if townExclusionZoneRetries s + 1 = 3 then 0 else townExclusionZoneRetries s + 1)\<rparr>"
proof -
  let ?cs = "fst (getRandomMapTiles util (placedTiles s) (TotalTowns config - townsGenerated s)
               TileType_Land (rand s))"
  have "set ?cs \<subseteq> typedCoords TileType_Land (placedTiles s)"
    using sc by (simp add: samplerContract_def)
  also have "\<dots> \<subseteq> tileCoords (placedTiles s)"
    by (auto simp: typedCoords_def tileCoords_def)
  finally have "?cs = []" using empty by simp
  then show ?thesis by (simp add: placeRound_def Let_def)
qed

lemma under_placement_radius_minus_one:
  assumes sc: "samplerContract util"
    and rad: "Radius config = - 1"
    and ft: "filteredTiles util config = Some ft"
    and towns: "1 \<le> TotalTowns config"
  shows "\<exists>st. placeTowns util config (placementStart util config ft) = Some st
            \<and> placedTiles st = ft
            \<and> townsGenerated st = 0
            \<and> townExclusionZoneRadius st = - 1
            \<and> logged st = [Print_Seed (seedOf util config), Warn_Failed (TotalTowns config) 0]"
proof -
  let ?s0 = "placementStart util config ft"
  from ft obtain vis where ft': "ft = removeUnvisited vis
        (createInitialMap util config (seedOf util config) (waterLevelOf config))"
    by (rule filteredTiles_SomeD)
  have empty: "tileCoords (placedTiles ?s0) = {}"
    unfolding ft' using rad by (simp add: placementStart_def tileCoords_filtered_negative)
  note r = placeRound_empty_grid [OF sc empty, of config]
  have rr: "townExclusionZoneRadius (placeRound util config ?s0) = - 1"
    unfolding r using rad by (simp add: placementStart_def)
  have more: "townsGenerated ?s0 < TotalTowns config"
    using towns by (simp add: placementStart_def)
  have run: "placeTowns util config ?s0 = Some (warnFailed config (placeRound util config ?s0))"
    using more rr by (subst placeTowns.simps) simp
  have "placedTiles (warnFailed config (placeRound util config ?s0)) = ft"
    and "townsGenerated (warnFailed config (placeRound util config ?s0)) = 0"
    and "townExclusionZoneRadius (warnFailed config (placeRound util config ?s0)) = - 1"
    and "logged (warnFailed config (placeRound util config ?s0))
         = [Print_Seed (seedOf util config), Warn_Failed (TotalTowns config) 0]"
    unfolding r using rad by (simp_all add: warnFailed_def placementStart_def)
  with run show ?thesis by blast
qed

section \<open>Biomes of the returned map\<close>

text \<open>
  Claim C1, as the code has it. In the map \<open>BuildMapDefinition\<close> returns, the sampler
  keeping its contract, no Town tile has biome Water, whatever \<open>GenerateBiomes\<close> is; and
  when \<open>GenerateBiomes\<close> is true every Water tile has biome Water. When \<open>GenerateBiomes\<close>
  is false or left out, a tile whose height is at most the water level is Water with
  biome Grassland.
\<close>

theorem returned_biomes:
  assumes sc: "samplerContract util"
    and b: "BuildMapDefinition util config = Some res"
    and t: "tileAt (Tiles (returned res)) c = Some t"
  shows "(Type t = TileType_Town \<longrightarrow> Biome t \<noteq> Biome_Water)
       \<and> (GenerateBiomes config = Some True \<longrightarrow> Type t = TileType_Water \<longrightarrow> Biome t = Biome_Water)
       \<and> (GenerateBiomes config \<noteq> Some True \<longrightarrow>
            heightAt util config (seedOf util config) c \<le> waterLevelOf config \<longrightarrow>
            Type t = TileType_Water \<and> Biome t = Biome_Grassland)"
proof -
  from b obtain ft st where ft: "filteredTiles util config = Some ft"
    by (rule BuildMapDefinition_SomeD)
  then obtain vis where ft': "ft = removeUnvisited vis
        (createInitialMap util config (seedOf util config) (waterLevelOf config))"
    by (rule filteredTiles_SomeD)
  have p: "promoted ft (Tiles (returned res))" by (rule returned_promoted [OF sc b ft])
  then consider (same) "tileAt ft c = Some t"
    | (town) t0 where "tileAt ft c = Some t0" "Type t0 = TileType_Land"
        "t = t0\<lparr>Type := TileType_Town\<rparr>"
    using t unfolding promoted_def by (metis option.inject)
  then show ?thesis
  proof cases
    case same
    from filtered_biome [OF same [unfolded ft']] filtered_type(1) [OF same [unfolded ft']]
    show ?thesis by (auto split: if_splits)
  next
    case town
    from filtered_biome [OF town(1) [unfolded ft']] filtered_type(1) [OF town(1) [unfolded ft']]
      town(2,3)
    show ?thesis by (auto split: if_splits)
  qed
qed

theorem returned_biomes_witness:
  "returnedTileAt (exampleUtil [Axial 1 0] 0.5 (- 1) [Axial 1 0, Axial 0 0])
      (exampleConfig 1 1 (Some True)) (Axial 1 0)
     = Some (Some \<lparr>Position = Axial 1 0, Type = TileType_Town, Biome = Biome_Coastline\<rparr>)
   \<and> returnedTileAt (exampleUtil [Axial 1 0] 0.5 (- 1) [Axial 1 0, Axial 0 0])
      (exampleConfig 1 1 (Some True)) (Axial 0 0)
     = Some (Some \<lparr>Position = Axial 0 0, Type = TileType_Water, Biome = Biome_Water\<rparr>)
   \<and> Biome_Coastline \<noteq> Biome_Water"
proof -
  let ?U = "exampleUtil [Axial 1 0] 0.5 (- 1) [Axial 1 0, Axial 0 0]"
  let ?C = "exampleConfig 1 1 (Some True)"
  have 1: "returnedTileAt ?U ?C (Axial 1 0)
     = Some (Some \<lparr>Position = Axial 1 0, Type = TileType_Town, Biome = Biome_Coastline\<rparr>)"
    by (simp add: returnedTileAt_def town_run flood_run getTileBiome_def tileHasWater_def
        tileIsCoastline_def)
  have 2: "returnedTileAt ?U ?C (Axial 0 0)
     = Some (Some \<lparr>Position = Axial 0 0, Type = TileType_Water, Biome = Biome_Water\<rparr>)"
    by (simp add: returnedTileAt_def town_run flood_run getTileBiome_def tileHasWater_def
        tileIsCoastline_def)
  from 1 obtain res where res: "BuildMapDefinition ?U ?C = Some res"
    and t: "tileAt (Tiles (returned res)) (Axial 1 0)
            = Some \<lparr>Position = Axial 1 0, Type = TileType_Town, Biome = Biome_Coastline\<rparr>"
    by (auto simp: returnedTileAt_def)
  from returned_biomes [OF exampleUtil_contract res t]
  have "Biome_Coastline \<noteq> Biome_Water" by simp
  with 1 2 show ?thesis by blast
qed

text \<open>
  Claim C1 as stated fails when \<open>GenerateBiomes\<close> is left out or false: the origin tile of
  the example lies at a height below the water level, and it is returned with type Water
  and biome Grassland.
\<close>

theorem water_tile_grassland_counterexample:
  "returnedTileAt (exampleUtil [Axial 1 0] 0.5 (- 1) [Axial 1 0, Axial 0 0])
      (exampleConfig 1 1 None) (Axial 0 0)
     = Some (Some \<lparr>Position = Axial 0 0, Type = TileType_Water, Biome = Biome_Grassland\<rparr>)
   \<and> returnedTileAt (exampleUtil [Axial 1 0] 0.5 (- 1) [Axial 1 0, Axial 0 0])
      (exampleConfig 1 1 (Some False)) (Axial 0 0)
     = Some (Some \<lparr>Position = Axial 0 0, Type = TileType_Water, Biome = Biome_Grassland\<rparr>)"
  by (simp add: returnedTileAt_def town_run flood_run)

section \<open>Configurations with a negative radius or town count\<close>

text \<open>
  Claim C2, as the code has it. \<open>BuildMapDefinition\<close> does not examine the configuration,
  and nothing in it raises an error. Once the flood fill has returned: with a town count
  of zero or below, whatever the radius, the town loop makes no pass and the function
  returns the filtered grid, having printed the seed and nothing else; with radius -1
  and a town count of one or more, the sampler keeping its contract, the loop makes one
  pass and the function returns the filtered grid after the warning. The filtered grid
  holds no Town, and with a negative radius it holds no tile at all.
\<close>

theorem negative_configuration_not_refused:
  assumes ft: "filteredTiles util config = Some ft"
  shows "(TotalTowns config \<le> 0 \<longrightarrow>
            BuildMapDefinition util config =
              Some \<lparr>configAfter = resolveConfig util config,
                    returned = \<lparr>Config = resolveConfig util config, Tiles = ft\<rparr>,
                    printed = [Print_Seed (seedOf util config)]\<rparr>)
       \<and> (Radius config = - 1 \<longrightarrow> 1 \<le> TotalTowns config \<longrightarrow> samplerContract util \<longrightarrow>
            BuildMapDefinition util config =
              Some \<lparr>configAfter = resolveConfig util config,
                    returned = \<lparr>Config = resolveConfig util config, Tiles = ft\<rparr>,
                    printed = [Print_Seed (seedOf util config),
                               Warn_Failed (TotalTowns config) 0]\<rparr>)
       \<and> typedCoords TileType_Town ft = {}
       \<and> (Radius config < 0 \<longrightarrow> tileCoords ft = {})"
proof -
  have a: "BuildMapDefinition util config =
           Some \<lparr>configAfter = resolveConfig util config,
                 returned = \<lparr>Config = resolveConfig util config, Tiles = ft\<rparr>,
                 printed = [Print_Seed (seedOf util config)]\<rparr>"
    if nt: "TotalTowns config \<le> 0"
  proof -
    have "\<not> townsGenerated (placementStart util config ft) < TotalTowns config"
      using nt by (simp add: placementStart_def)
    then have "placeTowns util config (placementStart util config ft)
               = Some (placementStart util config ft)"
      by (rule placeTowns_none_needed)
    then show ?thesis using ft by (simp add: BuildMapDefinition_def placementStart_def)
  qed
  have b: "BuildMapDefinition util config =
              Some \<lparr>configAfter = resolveConfig util config,
                    returned = \<lparr>Config = resolveConfig util config, Tiles = ft\<rparr>,
                    printed = [Print_Seed (seedOf util config),
                               Warn_Failed (TotalTowns config) 0]\<rparr>"
    if "Radius config = - 1" "1 \<le> TotalTowns config" "samplerContract util"
  proof -
    from under_placement_radius_minus_one [OF that(3) that(1) ft that(2)] obtain st
      where "placeTowns util config (placementStart util config ft) = Some st"
        and "placedTiles st = ft"
        and "logged st = [Print_Seed (seedOf util config), Warn_Failed (TotalTowns config) 0]"
      by blast
    then show ?thesis using ft by (simp add: BuildMapDefinition_def)
  qed
  from ft obtain vis where ft': "ft = removeUnvisited vis
        (createInitialMap util config (seedOf util config) (waterLevelOf config))"
    by (rule filteredTiles_SomeD)
  have c: "typedCoords TileType_Town ft = {}" unfolding ft' by (rule no_towns_filtered)
  have d: "tileCoords ft = {}" if "Radius config < 0"
    unfolding ft' using that by (rule tileCoords_filtered_negative)
  from a b c d show ?thesis by blast
qed

theorem negative_configuration_not_refused_witness:
  "TotalTowns (exampleConfig (- 1) (- 3) None) \<le> 0
   \<and> Radius (exampleConfig (- 1) (- 3) None) < 0
   \<and> map_option printed
       (BuildMapDefinition (exampleUtil [Axial 0 0] 0.5 (- 1) []) (exampleConfig (- 1) (- 3) None))
     = Some [Print_Seed 0.5]
   \<and> Radius (exampleConfig (- 1) 2 None) = - 1
   \<and> 1 \<le> TotalTowns (exampleConfig (- 1) 2 None)
   \<and> map_option printed
       (BuildMapDefinition (exampleUtil [Axial 0 0] 0.5 (- 1) []) (exampleConfig (- 1) 2 None))
     = Some [Print_Seed 0.5, Warn_Failed 2 0]"
proof -
  let ?U = "exampleUtil [Axial 0 0] 0.5 (- 1) []"
  let ?C = "exampleConfig (- 1) (- 3) None" and ?D = "exampleConfig (- 1) 2 None"
  have "filteredTiles ?U ?C \<noteq> None"
    by (simp add: filteredTiles_def flood_run)
  then obtain ft where ft: "filteredTiles ?U ?C = Some ft" by auto
  have "filteredTiles ?U ?D \<noteq> None"
    by (simp add: filteredTiles_def flood_run)
  then obtain fd where fd: "filteredTiles ?U ?D = Some fd" by auto
  have nt: "TotalTowns ?C \<le> 0" and rc: "Radius ?C < 0"
    and rd: "Radius ?D = - 1" and td: "1 \<le> TotalTowns ?D"
    by (simp_all add: exampleConfig_def)
  have sc: "samplerContract ?U" by (rule exampleUtil_contract)
  from negative_configuration_not_refused [OF ft] nt
  have 1: "map_option printed (BuildMapDefinition ?U ?C) = Some [Print_Seed 0.5]"
    by (simp add: exampleConfig_def seedOf_def exampleUtil_def)
  from negative_configuration_not_refused [OF fd] rd td sc
  have 2: "map_option printed (BuildMapDefinition ?U ?D) = Some [Print_Seed 0.5, Warn_Failed 2 0]"
    by (simp add: exampleConfig_def seedOf_def exampleUtil_def)
  from 1 2 nt rc rd td show ?thesis by blast
qed

text \<open>
  Claim C2 as stated fails: with radius -1, and with a town count of -3, the function
  returns a map definition; the one for radius -1 has no tile at the origin. With radius
  -1 and two towns asked for it returns after the warning.
\<close>

theorem negative_configuration_returns_counterexample:
  "returnedTypeAt (exampleUtil [Axial 0 0] 0.5 (- 1) []) (exampleConfig (- 1) 0 None) (Axial 0 0)
     = Some None
   \<and> returnedTypeAt (exampleUtil [Axial 0 0] 0.5 (- 1) []) (exampleConfig 1 (- 3) None) (Axial 0 0)
     = Some (Some TileType_Land)
   \<and> map_option printed
       (BuildMapDefinition (exampleUtil [Axial 0 0] 0.5 (- 1) []) (exampleConfig (- 1) (- 3) None))
     = Some [Print_Seed 0.5]
   \<and> map_option printed
       (BuildMapDefinition (exampleUtil [Axial 0 0] 0.5 (- 1) []) (exampleConfig (- 1) 2 None))
     = Some [Print_Seed 0.5, Warn_Failed 2 0]"
  by (simp add: returnedTypeAt_def returnedTileAt_def town_run flood_run)

section \<open>The caller's configuration\<close>

text \<open>
  Claim C3, as the code has it. \<open>BuildMapDefinition\<close> writes the resolved \<open>Seed\<close> and
  \<open>WaterLevel\<close> into the caller's configuration object and returns that object as
  \<open>Config\<close>. A field the caller had set holds the same value after the call; \<open>Seed\<close>, when
  it was absent, holds the number \<open>math.random()\<close> gave, and \<open>WaterLevel\<close>, when it was
  absent, holds -0.4. The other fields are not written.
\<close>

theorem config_after_build:
  assumes "BuildMapDefinition util config = Some res"
  shows "configAfter res = config\<lparr>WaterLevel := Some (waterLevelOf config),
                                   Seed := Some (seedOf util config)\<rparr>
       \<and> Config (returned res) = configAfter res
       \<and> (Seed config \<noteq> None \<longrightarrow> Seed (configAfter res) = Seed config)
       \<and> (WaterLevel config \<noteq> None \<longrightarrow> WaterLevel (configAfter res) = WaterLevel config)
       \<and> (Seed config = None \<longrightarrow> Seed (configAfter res) = Some (mathRandom util))
       \<and> (WaterLevel config = None \<longrightarrow> WaterLevel (configAfter res) = Some (- 0.4))"
proof -
  from assms have "configAfter res = resolveConfig util config"
    and "Config (returned res) = resolveConfig util config"
    by (auto elim!: BuildMapDefinition_SomeD)
  then show ?thesis
    by (cases "Seed config"; cases "WaterLevel config")
       (simp_all add: resolveConfig_def seedOf_def waterLevelOf_def)
qed

theorem config_after_build_witness:
  "map_option configAfter
     (BuildMapDefinition (exampleUtil [Axial 1 0] 0.5 (- 1) [Axial 1 0, Axial 0 0])
        ((exampleConfig 1 1 None)\<lparr>WaterLevel := Some 0, Seed := Some 7\<rparr>))
   = Some ((exampleConfig 1 1 None)\<lparr>WaterLevel := Some 0, Seed := Some 7\<rparr>)"
proof -
  let ?U = "exampleUtil [Axial 1 0] 0.5 (- 1) [Axial 1 0, Axial 0 0]"
  let ?C = "(exampleConfig 1 1 None)\<lparr>WaterLevel := Some 0, Seed := Some 7\<rparr>"
  have "BuildMapDefinition ?U ?C \<noteq> None"
    by (simp add: town_run flood_run)
  then obtain res where res: "BuildMapDefinition ?U ?C = Some res" by auto
  from config_after_build [OF res] have "configAfter res = ?C"
    by (simp add: exampleConfig_def seedOf_def waterLevelOf_def)
  with res show ?thesis by simp
qed

text \<open>
  Claim C3 as stated fails: a configuration without \<open>Seed\<close> and \<open>WaterLevel\<close> has both
  after the call.
\<close>

theorem config_defaults_written_counterexample:
  "Seed (exampleConfig 1 1 None) = None
   \<and> WaterLevel (exampleConfig 1 1 None) = None
   \<and> map_option configAfter
       (BuildMapDefinition (exampleUtil [Axial 1 0] 0.5 (- 1) [Axial 1 0, Axial 0 0])
          (exampleConfig 1 1 None))
     = Some \<lparr>Radius = 1, DepthScale = 1, TotalTowns = 1, GenerateBiomes = None,
             WaterLevel = Some (- 0.4), Seed = Some 0.5, Debug = None\<rparr>"
  by (simp add: town_run flood_run resolveConfig_def)

section \<open>The biome classifier\<close>

text \<open>
  Claim C4. For every coordinate, with the seed and the water level resolved,
  \<open>getTileBiome\<close> returns Water when the tile's own height is at most the water level;
  otherwise Coastline when one of the six ring-1 neighbours has a height at most the water
  level; otherwise MountainSnow above 0.2, Mountain above 0 up to 0.2, and Grassland at 0
  or below. The water comparison is inclusive and the mountain comparisons are strict.
  The neighbours the classifier samples are six distinct coordinates, those at cube
  distance 1 from the tile.
\<close>

theorem getTileBiome_classification:
  "getTileBiome noise seed radius waterLevel axial =
     (if noise axial seed radius \<le> waterLevel then Biome_Water
      else if \<exists>n \<in> set (getNearbyCoordinates axial 1). noise n seed radius \<le> waterLevel
        then Biome_Coastline
      else if noise axial seed radius > 0.2 then Biome_MountainSnow
      else if 0 < noise axial seed radius \<and> noise axial seed radius \<le> 0.2 then Biome_Mountain
      else Biome_Grassland)
   \<and> length (getNearbyCoordinates axial 1) = 6 \<and> distinct (getNearbyCoordinates axial 1)
   \<and> set (getNearbyCoordinates axial 1) =
       {n. cubeDistance (Axial (X n - X axial) (Z n - Z axial)) = 1}"
proof -
  have a: "getTileBiome noise seed radius waterLevel axial =
     (if noise axial seed radius \<le> waterLevel then Biome_Water
      else if \<exists>n \<in> set (getNearbyCoordinates axial 1). noise n seed radius \<le> waterLevel
        then Biome_Coastline
      else if noise axial seed radius > 0.2 then Biome_MountainSnow
      else if 0 < noise axial seed radius \<and> noise axial seed radius \<le> 0.2 then Biome_Mountain
      else Biome_Grassland)"
    by (simp add: getTileBiome_def tileHasWater_def tileIsCoastline_def anyHasWater_iff Let_def)
  have c: "set (getNearbyCoordinates axial 1) =
       {n. cubeDistance (Axial (X n - X axial) (Z n - Z axial)) = 1}"
    unfolding getNearbyCoordinates_1 using set_ring1 [of _ axial] by blast
  from a c ring1_six [of axial] show ?thesis
    unfolding getNearbyCoordinates_1 by blast
qed

theorem getTileBiome_classification_witness:
  "getTileBiome (\<lambda>c s r. if c = Axial 1 0 then - 1 else 0.2) 7 2 (- 0.4) (Axial 0 0) = Biome_Coastline
   \<and> getTileBiome (\<lambda>c s r. 0.2) 7 2 (- 0.4) (Axial 0 0) = Biome_Mountain
   \<and> getTileBiome (\<lambda>c s r. 0) 7 2 (- 0.4) (Axial 0 0) = Biome_Grassland
   \<and> getTileBiome (\<lambda>c s r. - 0.4) 7 2 (- 0.4) (Axial 0 0) = Biome_Water
   \<and> getTileBiome (\<lambda>c s r. 0.3) 7 2 (- 0.4) (Axial 0 0) = Biome_MountainSnow"
proof -
  have m: "Axial 1 0 \<in> set (getNearbyCoordinates (Axial 0 0) 1)"
    by (simp add: getNearbyCoordinates_1 ring1_def)
  have "getTileBiome (\<lambda>c s r. if c = Axial 1 0 then - 1 else 0.2) 7 2 (- 0.4) (Axial 0 0)
        = Biome_Coastline"
    using getTileBiome_classification
      [of "\<lambda>c s r. if c = Axial 1 0 then - 1 else 0.2" 7 2 "- 0.4" "Axial 0 0"] m
    by (auto split: if_splits)
  moreover have "getTileBiome (\<lambda>c s r. 0.2) 7 2 (- 0.4) (Axial 0 0) = Biome_Mountain"
    using getTileBiome_classification [of "\<lambda>c s r. 0.2" 7 2 "- 0.4" "Axial 0 0"] by simp
  moreover have "getTileBiome (\<lambda>c s r. 0) 7 2 (- 0.4) (Axial 0 0) = Biome_Grassland"
    using getTileBiome_classification [of "\<lambda>c s r. 0" 7 2 "- 0.4" "Axial 0 0"] by simp
  moreover have "getTileBiome (\<lambda>c s r. - 0.4) 7 2 (- 0.4) (Axial 0 0) = Biome_Water"
    using getTileBiome_classification [of "\<lambda>c s r. - 0.4" 7 2 "- 0.4" "Axial 0 0"] by simp
  moreover have "getTileBiome (\<lambda>c s r. 0.3) 7 2 (- 0.4) (Axial 0 0) = Biome_MountainSnow"
    using getTileBiome_classification [of "\<lambda>c s r. 0.3" 7 2 "- 0.4" "Axial 0 0"] by simp
  ultimately show ?thesis by blast
qed

section \<open>The number and place of the tiles\<close>

text \<open>
  Claim C5. For every radius \<open>R \<ge> 0\<close> and every seed, the grid the two nested loops
  build holds exactly \<open>3R\<^sup>2 + 3R + 1\<close> tiles: one at every axial coordinate with cube
  distance at most \<open>R\<close> from the origin, stored under its own coordinate (so no two tiles
  share a coordinate), and none at a coordinate with cube distance above \<open>R\<close>.
\<close>

theorem createInitialMap_tile_count:
  assumes "0 \<le> Radius config"
  shows "int (card (tileCoords (createInitialMap util config seed waterLevel)))
           = 3 * (Radius config)\<^sup>2 + 3 * Radius config + 1
       \<and> (\<forall>c. cubeDistance c \<le> Radius config \<longrightarrow>
              (\<exists>t. tileAt (createInitialMap util config seed waterLevel) c = Some t
                   \<and> Position t = c))
       \<and> (\<forall>c. cubeDistance c > Radius config \<longrightarrow>
              tileAt (createInitialMap util config seed waterLevel) c = None)"
proof -
  have "tileCoords (createInitialMap util config seed waterLevel) = hexBall (Radius config)"
    by (auto simp: tileCoords_def hexBall_def tileAt_createInitialMap)
  then have "int (card (tileCoords (createInitialMap util config seed waterLevel)))
           = 3 * (Radius config)\<^sup>2 + 3 * Radius config + 1"
    using card_hexBall [OF assms] by simp
  moreover have "Position (initialTile util config seed waterLevel (X c) (Z c)) = c" for c
    by (simp add: initialTile_def Let_def)
  ultimately show ?thesis
    by (simp add: tileAt_createInitialMap)
qed

theorem createInitialMap_tile_count_witness:
  "0 \<le> Radius (exampleConfig 2 1 None)
   \<and> int (card (tileCoords (createInitialMap (exampleUtil [] 0 0.5 []) (exampleConfig 2 1 None) 7 (- 0.4)))) = 19
   \<and> tileAt (createInitialMap (exampleUtil [] 0 0.5 []) (exampleConfig 2 1 None) 7 (- 0.4)) (Axial 3 0) = None"
proof -
  have r: "Radius (exampleConfig 2 1 None) = 2" by (simp add: exampleConfig_def)
  have d: "cubeDistance (Axial 3 0) = 3" by (simp add: cubeDistance_def)
  show ?thesis
    using createInitialMap_tile_count [of "exampleConfig 2 1 None" "exampleUtil [] 0 0.5 []" 7 "- 0.4"]
    by (simp add: r d)
qed

section \<open>Land and water after the connectivity filter\<close>

text \<open>
  Claim C6, as the code has it. When the flood fill has returned and the unvisited land is
  removed, every tile that is still Land is marked reachable: a path of ring-1 steps leads
  to it from the origin over coordinates with a height above the water level, and that
  path never steps onto a Water tile of the filtered grid. The path may start on a Water
  tile at the origin and may pass over coordinates beyond the map radius, which hold no
  tile. No Water tile other than the origin's is marked reachable, and no tile is a Town
  yet.
\<close>

theorem filtered_land_reachable:
  assumes fl: "floodFill util config (seedOf util config) (waterLevelOf config) = Some vis"
    and ft: "filteredTiles util config = Some ft"
    and t: "tileAt ft c = Some t"
  shows "(Type t = TileType_Land \<longrightarrow>
            vis c = Some True
            \<and> reachable (heightAt util config (seedOf util config)) (waterLevelOf config) c
            \<and> traversable ft c)
       \<and> (Type t = TileType_Water \<longrightarrow> c \<noteq> Axial 0 0 \<longrightarrow> vis c \<noteq> Some True)
       \<and> Type t \<noteq> TileType_Town"
proof -
  let ?seed = "seedOf util config" and ?wl = "waterLevelOf config"
  from ft fl have ft': "ft = removeUnvisited vis (createInitialMap util config ?seed ?wl)"
    by (auto simp: filteredTiles_def)
  from t have ty: "Type t = (if heightAt util config ?seed c > ?wl \<and> vis c = Some True
                   then TileType_Land else TileType_Water)"
    unfolding ft' by (rule filtered_type(1))
  have land: "vis c = Some True \<and> reachable (heightAt util config ?seed) ?wl c \<and> traversable ft c"
    if "Type t = TileType_Land"
  proof -
    from that ty have v: "vis c = Some True" by (simp split: if_splits)
    then have r: "reachable (heightAt util config ?seed) ?wl c"
      using floodFill_visited [OF fl] by simp
    from reachable_traversable [OF fl r] v r show ?thesis unfolding ft' by simp
  qed
  have water: "vis c \<noteq> Some True" if "Type t = TileType_Water" "c \<noteq> Axial 0 0"
  proof
    assume v: "vis c = Some True"
    from floodFill_sampled [OF fl v that(2)] have "heightAt util config ?seed c > ?wl" by simp
    with v ty that(1) show False by simp
  qed
  from ty have "Type t \<noteq> TileType_Town" by (simp split: if_splits)
  with land water show ?thesis by blast
qed

theorem filtered_land_reachable_witness:
  "floodMark (exampleUtil [Axial 0 0, Axial 1 0] 0.5 (- 1) []) (exampleConfig 1 0 None) (Axial 1 0)
     = Some (Some True)
   \<and> filteredTypeAt (exampleUtil [Axial 0 0, Axial 1 0] 0.5 (- 1) []) (exampleConfig 1 0 None) (Axial 1 0)
     = Some (Some TileType_Land)
   \<and> reachable (heightAt (exampleUtil [Axial 0 0, Axial 1 0] 0.5 (- 1) []) (exampleConfig 1 0 None)
                  (seedOf (exampleUtil [Axial 0 0, Axial 1 0] 0.5 (- 1) []) (exampleConfig 1 0 None)))
        (waterLevelOf (exampleConfig 1 0 None)) (Axial 1 0)"
proof -
  let ?U = "exampleUtil [Axial 0 0, Axial 1 0] 0.5 (- 1) []" and ?C = "exampleConfig 1 0 None"
  have m: "floodMark ?U ?C (Axial 1 0) = Some (Some True)"
    by (simp add: floodMark_def flood_run)
  then obtain vis where fl: "floodFill ?U ?C (seedOf ?U ?C) (waterLevelOf ?C) = Some vis"
    by (auto simp: floodMark_def)
  then obtain ft where ft: "filteredTiles ?U ?C = Some ft"
    by (auto simp: filteredTiles_def)
  have ty: "filteredTypeAt ?U ?C (Axial 1 0) = Some (Some TileType_Land)"
    by (simp add: filteredTypeAt_def filteredTileAt_def filteredTiles_def filtered_tileAt
        removeIfUnvisited_def initialTile_def cubeDistance_def flood_run)
  with ft obtain t where t: "tileAt ft (Axial 1 0) = Some t" "Type t = TileType_Land"
    by (auto simp: filteredTypeAt_def filteredTileAt_def)
  from filtered_land_reachable [OF fl ft t(1)] t(2) m ty show ?thesis by blast
qed

text \<open>
  Claim C6 as stated fails. On a map of radius 2 whose heights are above the water level
  only along a path that leaves the map at \<open>(0,2)\<close> and re-enters it at \<open>(2,0)\<close>, the origin
  tile is Water and yet marked reachable, and the tile at \<open>(2,0)\<close> stays Land although
  each of its neighbours is a Water tile or holds no tile.
\<close>

theorem filtered_land_beyond_water_counterexample:
  "floodMark (exampleUtil [Axial 0 1, Axial 0 2, Axial 0 3, Axial 1 2, Axial 2 1, Axial 2 0] 0.5 (- 1) [])
      (exampleConfig 2 0 None) (Axial 0 0) = Some (Some True)
   \<and> filteredTypeAt (exampleUtil [Axial 0 1, Axial 0 2, Axial 0 3, Axial 1 2, Axial 2 1, Axial 2 0] 0.5 (- 1) [])
      (exampleConfig 2 0 None) (Axial 0 0) = Some (Some TileType_Water)
   \<and> filteredTypeAt (exampleUtil [Axial 0 1, Axial 0 2, Axial 0 3, Axial 1 2, Axial 2 1, Axial 2 0] 0.5 (- 1) [])
      (exampleConfig 2 0 None) (Axial 2 0) = Some (Some TileType_Land)
   \<and> filteredTypeAt (exampleUtil [Axial 0 1, Axial 0 2, Axial 0 3, Axial 1 2, Axial 2 1, Axial 2 0] 0.5 (- 1) [])
      (exampleConfig 2 0 None) (Axial 1 0) = Some (Some TileType_Water)
   \<and> filteredTypeAt (exampleUtil [Axial 0 1, Axial 0 2, Axial 0 3, Axial 1 2, Axial 2 1, Axial 2 0] 0.5 (- 1) [])
      (exampleConfig 2 0 None) (Axial 1 1) = Some (Some TileType_Water)
   \<and> filteredTypeAt (exampleUtil [Axial 0 1, Axial 0 2, Axial 0 3, Axial 1 2, Axial 2 1, Axial 2 0] 0.5 (- 1) [])
      (exampleConfig 2 0 None) (Axial 2 (- 1)) = Some (Some TileType_Water)
   \<and> filteredTypeAt (exampleUtil [Axial 0 1, Axial 0 2, Axial 0 3, Axial 1 2, Axial 2 1, Axial 2 0] 0.5 (- 1) [])
      (exampleConfig 2 0 None) (Axial 2 1) = Some None
   \<and> filteredTypeAt (exampleUtil [Axial 0 1, Axial 0 2, Axial 0 3, Axial 1 2, Axial 2 1, Axial 2 0] 0.5 (- 1) [])
      (exampleConfig 2 0 None) (Axial 3 0) = Some None
   \<and> filteredTypeAt (exampleUtil [Axial 0 1, Axial 0 2, Axial 0 3, Axial 1 2, Axial 2 1, Axial 2 0] 0.5 (- 1) [])
      (exampleConfig 2 0 None) (Axial 3 (- 1)) = Some None"
  by (simp add: floodMark_def filteredTypeAt_def filteredTileAt_def filteredTiles_def filtered_tileAt
        removeIfUnvisited_def initialTile_def cubeDistance_def flood_run)

section \<open>Town counts and spacing across the passes of the town loop\<close>

text \<open>
  Claim C7. A pass of the town loop never turns a Town into anything else, so the set of
  Town tiles, and with it their number, does not decrease from pass to pass, nor over the
  whole loop. A drawn tile is accepted exactly when no Town of the grid as it is at that
  moment, Towns accepted earlier in the same pass included, lies within cube distance of
  the current exclusion radius of it; otherwise the scan goes on without a change. So if
  no two Towns lie within the current exclusion radius of each other before a pass, none
  do after it, neither under the radius the pass used nor under the radius it leaves,
  which is never larger.
\<close>

theorem towns_grow_and_keep_distance:
  "typedCoords TileType_Town (placedTiles s)
     \<subseteq> typedCoords TileType_Town (placedTiles (placeRound util config s))
   \<and> (finite (tileCoords (placedTiles s)) \<longrightarrow>
        card (typedCoords TileType_Town (placedTiles s))
          \<le> card (typedCoords TileType_Town (placedTiles (placeRound util config s))))
   \<and> (canBeTown tiles (getNearbyCoordinates tile r) \<longleftrightarrow>
        \<not> (\<exists>n \<in> typedCoords TileType_Town tiles.
               cubeDistanceBetween tile n \<le> r \<and> \<not> (0 < r \<and> n = tile)))
   \<and> placeSeeds r (tile # rest) sc =
        (if \<exists>n \<in> typedCoords TileType_Town (scanTiles sc).
               cubeDistanceBetween tile n \<le> r \<and> \<not> (0 < r \<and> n = tile)
         then placeSeeds r rest sc
         else placeSeeds r rest
                \<lparr>scanTiles = setTown (scanTiles sc) tile, scanGenerated = scanGenerated sc + 1,
                 newTownThisIteration = True\<rparr>)
   \<and> (spaced (townExclusionZoneRadius s) (placedTiles s) \<longrightarrow>
        spaced (townExclusionZoneRadius s) (placedTiles (placeRound util config s))
        \<and> spaced (townExclusionZoneRadius (placeRound util config s))
            (placedTiles (placeRound util config s)))
   \<and> townExclusionZoneRadius (placeRound util config s) \<le> townExclusionZoneRadius s
   \<and> (\<forall>st. placeTowns util config s = Some st \<longrightarrow>
        typedCoords TileType_Town (placedTiles s) \<subseteq> typedCoords TileType_Town (placedTiles st)
        \<and> (spaced (townExclusionZoneRadius s) (placedTiles s) \<longrightarrow>
             spaced (townExclusionZoneRadius st) (placedTiles st)))"
proof -
  let ?r = "placeRound util config s"
  have a: "typedCoords TileType_Town (placedTiles s) \<subseteq> typedCoords TileType_Town (placedTiles ?r)"
    by (rule placeRound_towns_grow)
  have b: "card (typedCoords TileType_Town (placedTiles s))
            \<le> card (typedCoords TileType_Town (placedTiles ?r))"
    if "finite (tileCoords (placedTiles s))"
  proof -
    have "typedCoords TileType_Town (placedTiles ?r) \<subseteq> tileCoords (placedTiles ?r)"
      by (auto simp: typedCoords_def tileCoords_def)
    with that have "finite (typedCoords TileType_Town (placedTiles ?r))"
      unfolding placeRound_tileCoords by (rule rev_finite_subset)
    then show ?thesis using a by (rule card_mono)
  qed
  have c: "canBeTown tiles (getNearbyCoordinates tile r) \<longleftrightarrow>
        \<not> (\<exists>n \<in> typedCoords TileType_Town tiles.
               cubeDistanceBetween tile n \<le> r \<and> \<not> (0 < r \<and> n = tile))"
    by (rule canBeTown_distance)
  have d: "placeSeeds r (tile # rest) sc =
        (if \<exists>n \<in> typedCoords TileType_Town (scanTiles sc).
               cubeDistanceBetween tile n \<le> r \<and> \<not> (0 < r \<and> n = tile)
         then placeSeeds r rest sc
         else placeSeeds r rest
                \<lparr>scanTiles = setTown (scanTiles sc) tile, scanGenerated = scanGenerated sc + 1,
                 newTownThisIteration = True\<rparr>)"
  proof (cases "canBeTown (scanTiles sc) (getNearbyCoordinates tile r)")
    case True
    with canBeTown_distance [of "scanTiles sc" tile r]
    have "\<not> (\<exists>n \<in> typedCoords TileType_Town (scanTiles sc).
               cubeDistanceBetween tile n \<le> r \<and> \<not> (0 < r \<and> n = tile))" by blast
    with True show ?thesis by (simp only: placeSeeds.simps if_True if_False)
  next
    case False
    with canBeTown_distance [of "scanTiles sc" tile r]
    have "\<exists>n \<in> typedCoords TileType_Town (scanTiles sc).
               cubeDistanceBetween tile n \<le> r \<and> \<not> (0 < r \<and> n = tile)" by blast
    with False show ?thesis by (simp only: placeSeeds.simps if_True if_False)
  qed
  have le: "townExclusionZoneRadius ?r \<le> townExclusionZoneRadius s"
    by (rule placeRound_radius_le)
  have e: "spaced (townExclusionZoneRadius s) (placedTiles ?r)
           \<and> spaced (townExclusionZoneRadius ?r) (placedTiles ?r)"
    if "spaced (townExclusionZoneRadius s) (placedTiles s)"
    using placeRound_spaced [OF that, of util config] le spaced_mono by blast
  have f: "typedCoords TileType_Town (placedTiles s) \<subseteq> typedCoords TileType_Town (placedTiles st)
        \<and> (spaced (townExclusionZoneRadius s) (placedTiles s) \<longrightarrow>
             spaced (townExclusionZoneRadius st) (placedTiles st))"
    if "placeTowns util config s = Some st" for st
    using placeTowns_towns_spaced [OF that] by blast
  from a b c d e le f show ?thesis by blast
qed

theorem towns_grow_and_keep_distance_witness:
  "finite (tileCoords (placedTiles exampleStart))
   \<and> townExclusionZoneRadius exampleStart = 1
   \<and> spaced 1 (placedTiles exampleStart)
   \<and> map_option Type (tileAt (placedTiles
        (placeRound (exampleUtil [Axial 0 0, Axial 1 0] 0.5 (- 1) [Axial 1 0, Axial 0 0])
           (exampleConfig 1 3 None) exampleStart)) (Axial 1 0)) = Some TileType_Town
   \<and> map_option Type (tileAt (placedTiles
        (placeRound (exampleUtil [Axial 0 0, Axial 1 0] 0.5 (- 1) [Axial 1 0, Axial 0 0])
           (exampleConfig 1 3 None) exampleStart)) (Axial 0 0)) = Some TileType_Land
   \<and> spaced 1 (placedTiles
        (placeRound (exampleUtil [Axial 0 0, Axial 1 0] 0.5 (- 1) [Axial 1 0, Axial 0 0])
           (exampleConfig 1 3 None) exampleStart))
   \<and> card (typedCoords TileType_Town (placedTiles exampleStart))
       \<le> card (typedCoords TileType_Town (placedTiles
            (placeRound (exampleUtil [Axial 0 0, Axial 1 0] 0.5 (- 1) [Axial 1 0, Axial 0 0])
               (exampleConfig 1 3 None) exampleStart)))"
proof -
  let ?U = "exampleUtil [Axial 0 0, Axial 1 0] 0.5 (- 1) [Axial 1 0, Axial 0 0]"
  let ?C = "exampleConfig 1 3 None"
  have fin: "finite (tileCoords (placedTiles exampleStart))"
    by (simp add: exampleStart_def placementStart_def tileCoords_createInitialMap finite_hexBall)
  have rad: "townExclusionZoneRadius exampleStart = 1"
    by (simp add: exampleStart_def placementStart_def exampleConfig_def)
  have sp: "spaced (townExclusionZoneRadius exampleStart) (placedTiles exampleStart)"
    by (simp add: exampleStart_def placementStart_def spaced_def no_towns_initial)
  have t1: "map_option Type (tileAt (placedTiles (placeRound ?U ?C exampleStart)) (Axial 1 0))
            = Some TileType_Town"
    by (simp add: placeRound_def exampleStart_def placementStart_def canBeTown_iff typedCoords_def
        tileAt_setTown tileAt_createInitialMap initialTile_def cubeDistance_def exampleUtil_def
        exampleConfig_def getNearbyCoordinates_1 ring1_def)
  have t0: "map_option Type (tileAt (placedTiles (placeRound ?U ?C exampleStart)) (Axial 0 0))
            = Some TileType_Land"
    by (simp add: placeRound_def exampleStart_def placementStart_def canBeTown_iff typedCoords_def
        tileAt_setTown tileAt_createInitialMap initialTile_def cubeDistance_def exampleUtil_def
        exampleConfig_def getNearbyCoordinates_1 ring1_def)
  from towns_grow_and_keep_distance [of exampleStart ?U ?C] fin sp
  have "spaced (townExclusionZoneRadius exampleStart) (placedTiles (placeRound ?U ?C exampleStart))"
    and "card (typedCoords TileType_Town (placedTiles exampleStart))
       \<le> card (typedCoords TileType_Town (placedTiles (placeRound ?U ?C exampleStart)))"
    by blast+
  with fin rad sp t1 t0 show ?thesis by simp
qed

section \<open>Under-placement\<close>

text \<open>
  Claim C8, as the code has it. When the sampler keeps its contract, the radius is not
  below -1 (so not negative, in particular), the flood fill has returned, and \<open>TotalTowns\<close> exceeds the
  number of Land tiles of the filtered grid, then the town loop leaves by its \<open>break\<close>
  with the exclusion radius at -1, and \<open>BuildMapDefinition\<close> returns: the map holds a tile
  wherever the filtered grid does, the number of its Town tiles is the count the loop
  kept and is below \<open>TotalTowns\<close>, and the last thing reported is the warning with both
  numbers.
\<close>

theorem under_placement_warns:
  assumes sc: "samplerContract util"
    and r0: "- 1 \<le> Radius config"
    and ft: "filteredTiles util config = Some ft"
    and few: "int (card (typedCoords TileType_Land ft)) < TotalTowns config"
  shows "\<exists>st. placeTowns util config (placementStart util config ft) = Some st
            \<and> townExclusionZoneRadius st = - 1
            \<and> townsGenerated st < TotalTowns config
            \<and> townsGenerated st = int (card (typedCoords TileType_Town (placedTiles st)))
            \<and> tileCoords (placedTiles st) = tileCoords ft
            \<and> last (logged st) = Warn_Failed (TotalTowns config) (townsGenerated st)
            \<and> BuildMapDefinition util config =
                Some \<lparr>configAfter = resolveConfig util config,
                      returned = \<lparr>Config = resolveConfig util config, Tiles = placedTiles st\<rparr>,
                      printed = logged st\<rparr>"
proof (cases "0 \<le> Radius config")
  case True
  then show ?thesis by (rule under_placement_nonnegative [OF sc _ ft few])
next
  case False
  with r0 have rad: "Radius config = - 1" by simp
  from ft obtain vis where ft': "ft = removeUnvisited vis
        (createInitialMap util config (seedOf util config) (waterLevelOf config))"
    by (rule filteredTiles_SomeD)
  have nt: "typedCoords TileType_Town ft = {}"
    unfolding ft' by (rule no_towns_filtered)
  from few have towns: "1 \<le> TotalTowns config" by simp
  from under_placement_radius_minus_one [OF sc rad ft towns] obtain st
    where run: "placeTowns util config (placementStart util config ft) = Some st"
      and tiles: "placedTiles st = ft"
      and gen: "townsGenerated st = 0"
      and radius: "townExclusionZoneRadius st = - 1"
      and lg: "logged st = [Print_Seed (seedOf util config), Warn_Failed (TotalTowns config) 0]"
    by blast
  have lt: "townsGenerated st < TotalTowns config" using gen towns by simp
  have cnt: "townsGenerated st = int (card (typedCoords TileType_Town (placedTiles st)))"
    by (simp add: gen tiles nt)
  have tc: "tileCoords (placedTiles st) = tileCoords ft" by (simp add: tiles)
  have lst: "last (logged st) = Warn_Failed (TotalTowns config) (townsGenerated st)"
    by (simp add: lg gen)
  have b: "BuildMapDefinition util config =
                Some \<lparr>configAfter = resolveConfig util config,
                      returned = \<lparr>Config = resolveConfig util config, Tiles = placedTiles st\<rparr>,
                      printed = logged st\<rparr>"
    using ft run by (simp add: BuildMapDefinition_def)
  from run radius lt cnt tc lst b show ?thesis by blast
qed

theorem under_placement_warns_witness:
  "samplerContract (exampleUtil [Axial 0 0, Axial 1 0] 0.5 (- 1) [Axial 1 0, Axial 0 0])
   \<and> - 1 \<le> Radius (exampleConfig 1 3 None)
   \<and> (\<exists>placed < 3.
         map_option printed
           (BuildMapDefinition (exampleUtil [Axial 0 0, Axial 1 0] 0.5 (- 1) [Axial 1 0, Axial 0 0])
              (exampleConfig 1 3 None))
         = Some [Print_Seed 0.5, Print_Towns 1 3, Print_Towns 1 3, Print_Towns 1 3,
                 Print_Towns 1 3, Print_Towns 2 3, Print_Towns 2 3, Print_Towns 2 3,
                 Warn_Failed 3 placed])"
proof -
  let ?U = "exampleUtil [Axial 0 0, Axial 1 0] 0.5 (- 1) [Axial 1 0, Axial 0 0]"
  let ?C = "exampleConfig 1 3 None"
  have sc: "samplerContract ?U" by (rule exampleUtil_contract)
  have r0: "- 1 \<le> Radius ?C" by (simp add: exampleConfig_def)
  have "filteredTiles ?U ?C \<noteq> None" by (simp add: filteredTiles_def flood_run)
  then obtain ft where ft: "filteredTiles ?U ?C = Some ft" by auto
  then obtain vis where ft': "ft = removeUnvisited vis
        (createInitialMap ?U ?C (seedOf ?U ?C) (waterLevelOf ?C))"
    by (rule filteredTiles_SomeD)
  have sub: "typedCoords TileType_Land ft \<subseteq> {Axial 0 0, Axial 1 0}"
  proof
    fix c assume "c \<in> typedCoords TileType_Land ft"
    then obtain t where t: "tileAt ft c = Some t" "Type t = TileType_Land"
      by (auto simp: typedCoords_def)
    from filtered_type(1) [OF t(1) [unfolded ft']] t(2)
    have "heightAt ?U ?C (seedOf ?U ?C) c > waterLevelOf ?C" by (simp split: if_splits)
    then show "c \<in> {Axial 0 0, Axial 1 0}"
      by (simp add: heightAt_def exampleUtil_def waterLevelOf_def exampleConfig_def split: if_splits)
  qed
  have "card (typedCoords TileType_Land ft) \<le> card {Axial 0 0, Axial 1 0}"
    by (rule card_mono [OF _ sub]) simp
  then have few: "int (card (typedCoords TileType_Land ft)) < TotalTowns ?C"
    by (simp add: exampleConfig_def)
  have run: "map_option printed (BuildMapDefinition ?U ?C)
         = Some [Print_Seed 0.5, Print_Towns 1 3, Print_Towns 1 3, Print_Towns 1 3,
                 Print_Towns 1 3, Print_Towns 2 3, Print_Towns 2 3, Print_Towns 2 3,
                 Warn_Failed 3 2]"
    by (simp add: town_run flood_run)
  from under_placement_warns [OF sc r0 ft few] obtain st
    where st: "placeTowns ?U ?C (placementStart ?U ?C ft) = Some st
            \<and> townExclusionZoneRadius st = - 1
            \<and> townsGenerated st < TotalTowns ?C
            \<and> townsGenerated st = int (card (typedCoords TileType_Town (placedTiles st)))
            \<and> tileCoords (placedTiles st) = tileCoords ft
            \<and> last (logged st) = Warn_Failed (TotalTowns ?C) (townsGenerated st)
            \<and> BuildMapDefinition ?U ?C =
                Some \<lparr>configAfter = resolveConfig ?U ?C,
                      returned = \<lparr>Config = resolveConfig ?U ?C, Tiles = placedTiles st\<rparr>,
                      printed = logged st\<rparr>" ..
  then have lt: "townsGenerated st < 3"
    and lg: "last (logged st) = Warn_Failed 3 (townsGenerated st)"
    and b: "map_option printed (BuildMapDefinition ?U ?C) = Some (logged st)"
    by (simp_all add: exampleConfig_def)
  from b run have "logged st = [Print_Seed 0.5, Print_Towns 1 3, Print_Towns 1 3, Print_Towns 1 3,
                 Print_Towns 1 3, Print_Towns 2 3, Print_Towns 2 3, Print_Towns 2 3,
                 Warn_Failed 3 2]" by (simp only: option.inject)
  with lg lt have "(2::int) < 3" by simp
  with run sc r0 show ?thesis by blast
qed

text \<open>
  Claim C8 as stated fails for a radius of -2 or below. With radius -2 and one town asked
  for, the filter returns a grid without any Land tile, so \<open>TotalTowns\<close> exceeds the number
  of Land tiles; the exclusion radius starts at -2, only goes down, and the loop leaves
  only at exactly -1, so \<open>BuildMapDefinition\<close> never returns.
\<close>

theorem under_placement_negative_radius_counterexample:
  "samplerContract (exampleUtil [Axial 0 0] 0.5 (- 1) [])
   \<and> filteredLandCount (exampleUtil [Axial 0 0] 0.5 (- 1) []) (exampleConfig (- 2) 1 None) = Some 0
   \<and> TotalTowns (exampleConfig (- 2) 1 None) = 1
   \<and> Radius (exampleConfig (- 2) 1 None) = - 2
   \<and> BuildMapDefinition (exampleUtil [Axial 0 0] 0.5 (- 1) []) (exampleConfig (- 2) 1 None) = None"
proof -
  let ?U = "exampleUtil [Axial 0 0] 0.5 (- 1) []" and ?C = "exampleConfig (- 2) 1 None"
  have sc: "samplerContract ?U" by (rule exampleUtil_contract)
  have rad: "Radius ?C = - 2" and towns: "TotalTowns ?C = 1"
    by (simp_all add: exampleConfig_def)
  have "filteredTiles ?U ?C \<noteq> None" by (simp add: filteredTiles_def flood_run)
  then obtain ft where ft: "filteredTiles ?U ?C = Some ft" by auto
  then obtain vis where ft': "ft = removeUnvisited vis
        (createInitialMap ?U ?C (seedOf ?U ?C) (waterLevelOf ?C))"
    by (rule filteredTiles_SomeD)
  have "tileCoords ft = {}"
    unfolding ft' using rad by (intro tileCoords_filtered_negative) simp
  moreover have "typedCoords TileType_Land ft \<subseteq> tileCoords ft"
    by (auto simp: typedCoords_def tileCoords_def)
  ultimately have "typedCoords TileType_Land ft = {}" by simp
  with ft have cnt: "filteredLandCount ?U ?C = Some 0" by (simp add: filteredLandCount_def)
  have never: "BuildMapDefinition ?U ?C = None"
    by (rule negative_radius_never_returns [OF sc]) (simp_all add: rad towns)
  from sc cnt towns rad never show ?thesis by blast
qed

section \<open>Termination of the flood fill\<close>

text \<open>
  Claim C9, as the code has it. The flood fill has no failing step, and when it returns
  its queue is exhausted. It returns exactly when finitely many coordinates are reachable
  from the origin over heights above the water level; that is so whenever the heights are
  at most the water level beyond some cube distance.
\<close>

theorem floodFill_returns_iff_finite:
  "((\<exists>vis. floodFill util config seed waterLevel = Some vis)
      \<longleftrightarrow> finite {c. reachable (heightAt util config seed) waterLevel c})
   \<and> ((\<exists>d. \<forall>c. cubeDistance c > d \<longrightarrow> heightAt util config seed c \<le> waterLevel)
        \<longrightarrow> (\<exists>vis. floodFill util config seed waterLevel = Some vis))
   \<and> (\<forall>r. floodLoop util config seed waterLevel floodStart = Some r
        \<longrightarrow> visitIdx r = length (toVisit r))"
proof -
  let ?R = "{c. reachable (heightAt util config seed) waterLevel c}"
  have a: "(\<exists>vis. floodFill util config seed waterLevel = Some vis) \<longleftrightarrow> finite ?R"
    using reachable_finite_if_returns returns_if_reachable_finite by blast
  have b: "\<exists>vis. floodFill util config seed waterLevel = Some vis"
    if "\<exists>d. \<forall>c. cubeDistance c > d \<longrightarrow> heightAt util config seed c \<le> waterLevel"
  proof -
    from that obtain d
      where d: "\<And>c. cubeDistance c > d \<Longrightarrow> heightAt util config seed c \<le> waterLevel"
      by blast
    have "?R \<subseteq> hexBall (max d 0)"
      using reachable_in_ball [of d util config seed waterLevel] d by blast
    then have "finite ?R" by (rule finite_subset) (rule finite_hexBall)
    then show ?thesis by (rule returns_if_reachable_finite)
  qed
  have c: "\<forall>r. floodLoop util config seed waterLevel floodStart = Some r
        \<longrightarrow> visitIdx r = length (toVisit r)"
    using floodLoop_result by blast
  from a b c show ?thesis by blast
qed

theorem floodFill_returns_iff_finite_witness:
  "(\<exists>d. \<forall>c. cubeDistance c > d \<longrightarrow>
       heightAt (exampleUtil [Axial 0 0, Axial 1 0] 0.5 (- 1) []) (exampleConfig 1 0 None) 0.5 c \<le> - 0.4)
   \<and> (\<exists>vis. floodFill (exampleUtil [Axial 0 0, Axial 1 0] 0.5 (- 1) []) (exampleConfig 1 0 None)
                0.5 (- 0.4) = Some vis)
   \<and> finite {c. reachable (heightAt (exampleUtil [Axial 0 0, Axial 1 0] 0.5 (- 1) [])
                              (exampleConfig 1 0 None) 0.5) (- 0.4) c}"
proof -
  have "\<forall>c. cubeDistance c > 1 \<longrightarrow>
       heightAt (exampleUtil [Axial 0 0, Axial 1 0] 0.5 (- 1) []) (exampleConfig 1 0 None) 0.5 c \<le> - 0.4"
    by (auto simp: heightAt_def exampleUtil_def cubeDistance_def)
  then have d: "\<exists>d. \<forall>c. cubeDistance c > d \<longrightarrow>
       heightAt (exampleUtil [Axial 0 0, Axial 1 0] 0.5 (- 1) []) (exampleConfig 1 0 None) 0.5 c \<le> - 0.4"
    by (rule exI)
  with floodFill_returns_iff_finite
    [of "exampleUtil [Axial 0 0, Axial 1 0] 0.5 (- 1) []" "exampleConfig 1 0 None" "0.5" "- 0.4"]
  show ?thesis by blast
qed

text \<open>
  Claim C9 as stated fails: a noise that is 0.5 at every coordinate is pure, deterministic
  and bounded, and under it the flood fill never exhausts its queue, so that
  \<open>BuildMapDefinition\<close> does not return.
\<close>

theorem floodFill_constant_noise_never_returns:
  "floodFill (exampleUtil [] 0 0.5 []) (exampleConfig 2 0 None) 0.5 (- 0.4) = None
   \<and> BuildMapDefinition (exampleUtil [] 0 0.5 []) (exampleConfig 2 0 None) = None"
proof -
  have h: "heightAt (exampleUtil [] 0 0.5 []) (exampleConfig 2 0 None) 0.5 c > - 0.4" for c
    by (simp add: heightAt_def exampleUtil_def)
  have f: "floodFill (exampleUtil [] 0 0.5 []) (exampleConfig 2 0 None) 0.5 (- 0.4) = None"
    by (rule floodFill_diverges_above_water) (rule h)
  have s: "seedOf (exampleUtil [] 0 0.5 []) (exampleConfig 2 0 None) = 0.5"
    by (simp add: seedOf_def exampleConfig_def exampleUtil_def)
  have w: "waterLevelOf (exampleConfig 2 0 None) = - 0.4"
    by (simp add: waterLevelOf_def exampleConfig_def)
  show ?thesis
    unfolding BuildMapDefinition_def filteredTiles_def s w f by simp
qed

section \<open>A Water tile at the origin\<close>



end
